theory Spec2Isabelle
  imports Main "HOL-Library.Multiset" "HOL-Library.Sublist"
begin

section \<open>JavaScript built-ins used by the blog list\<close>

text \<open>
  Strings are lists of code units; the model covers the code units below 256, which
  Isabelle's \<open>char\<close> holds.

  The numbers the blog list computes with are the results of \<open>parseInt\<close>, the time values
  of dates and differences of two of them: \<open>NaN\<close>, an infinity, or a double whose value is
  an integer. \<open>Num n\<close> is the double with the value \<open>n\<close>; \<open>toDouble\<close> rounds a mathematical
  integer to the nearest double (53 bits of significand, ties to even, overflow to an
  infinity), as the language does for the result of \<open>parseInt\<close> and of a subtraction.
\<close>

datatype number = NaN | NegInf | Num int | PosInf

function bitLength :: "int \<Rightarrow> nat" where
  "bitLength n = (if n \<le> 0 then 0 else Suc (bitLength (n div 2)))"
  by pat_completeness auto
termination
  by (relation "measure nat") auto

declare bitLength.simps [simp del]

definition toDouble :: "int \<Rightarrow> number" where
  "toDouble n =
     (let m = \<bar>n\<bar>
      in if m < 2 ^ 53 then Num n
         else (let e = bitLength m - 53;
                   q = m div 2 ^ e;
                   r = m mod 2 ^ e;
                   half = 2 ^ (e - 1);
                   q' = (if r > half \<or> (r = half \<and> odd q) then q + 1 else q)
               in if 1024 < bitLength (q' * 2 ^ e) then (if n < 0 then NegInf else PosInf)
                  else Num ((if n < 0 then - 1 else 1) * (q' * 2 ^ e))))"

text \<open>Subtraction of two such numbers.\<close>

fun numSub :: "number \<Rightarrow> number \<Rightarrow> number" where
  "numSub NaN b = NaN"
| "numSub a NaN = NaN"
| "numSub (Num x) (Num y) = toDouble (x - y)"
| "numSub (Num x) PosInf = NegInf"
| "numSub (Num x) NegInf = PosInf"
| "numSub PosInf PosInf = NaN"
| "numSub PosInf b = PosInf"
| "numSub NegInf NegInf = NaN"
| "numSub NegInf b = NegInf"

definition toLowerChar :: "char \<Rightarrow> char" where
  "toLowerChar c =
     (let n = (of_char c :: nat)
      in if (65 \<le> n \<and> n \<le> 90) \<or> (192 \<le> n \<and> n \<le> 222 \<and> n \<noteq> 215)
         then char_of (n + 32) else c)"

definition toLowerCase :: "string \<Rightarrow> string" where
  "toLowerCase s = map toLowerChar s"

text \<open>\<open>String.prototype.includes\<close>: the needle occurs at some position.\<close>

fun includesStr :: "string \<Rightarrow> string \<Rightarrow> bool" where
  "includesStr [] q = (q = [])"
| "includesStr (c # s) q = (prefix q (c # s) \<or> includesStr s q)"

text \<open>
  What the language leaves to the host, and what is not part of the repository, is a
  parameter of the model:
  \<^item> \<open>dateValue s\<close> is the time value of \<open>new Date(s)\<close> in milliseconds, \<open>NaN\<close> for an
    invalid date;
  \<^item> \<open>localeCompare a b\<close> is the collation behind \<open>a.localeCompare(b)\<close>;
  \<^item> \<open>sortOrder\<close> is the order in which the engine's \<open>Array.prototype.sort\<close> leaves an
    array when the comparator is not consistent (the language calls this order
    implementation-defined): from the length of the array and the comparator on positions
    of the array, the old positions of the elements in their new order;
  \<^item> \<open>zeroesLongDigits\<close> tells whether \<open>parseInt\<close> in radix 10 replaces the digits after
    the twentieth significant one by 0 (the language allows both).
\<close>

record host =
  dateValue :: "string \<Rightarrow> number"
  localeCompare :: "string \<Rightarrow> string \<Rightarrow> int"
  sortOrder :: "nat \<Rightarrow> (nat \<Rightarrow> nat \<Rightarrow> int) \<Rightarrow> nat list"
  zeroesLongDigits :: bool

text \<open>
  \<open>parseInt(s)\<close> with no radix: leading white space is skipped, then an optional sign,
  then an optional \<open>0x\<close>/\<open>0X\<close> prefix that selects radix 16, then the longest run of
  digits; no digit at all gives \<open>NaN\<close>. The result is a double.
\<close>

definition isWhiteSpace :: "char \<Rightarrow> bool" where
  "isWhiteSpace c = ((of_char c :: nat) \<in> {9, 10, 11, 12, 13, 32, 160})"

definition digitValue :: "char \<Rightarrow> nat option" where
  "digitValue c =
     (let n = (of_char c :: nat)
      in if 48 \<le> n \<and> n \<le> 57 then Some (n - 48)
         else if 97 \<le> n \<and> n \<le> 102 then Some (n - 87)
         else if 65 \<le> n \<and> n \<le> 70 then Some (n - 55)
         else None)"

definition isDigit :: "nat \<Rightarrow> char \<Rightarrow> bool" where
  "isDigit radix c = (case digitValue c of None \<Rightarrow> False | Some d \<Rightarrow> d < radix)"

definition digitsValue :: "nat \<Rightarrow> string \<Rightarrow> int" where
  "digitsValue radix ds =
     foldl (\<lambda>acc c. acc * int radix + (case digitValue c of None \<Rightarrow> 0 | Some d \<Rightarrow> int d))
       0 ds"

definition zeroAfter20 :: "string \<Rightarrow> string" where
  "zeroAfter20 ds =
     (let zeros = takeWhile (\<lambda>c. c = CHR ''0'') ds;
          sig = dropWhile (\<lambda>c. c = CHR ''0'') ds
      in zeros @ take 20 sig @ replicate (length sig - 20) CHR ''0'')"

definition parseInt :: "host \<Rightarrow> string \<Rightarrow> number" where
  "parseInt h s =
     (let t = dropWhile isWhiteSpace s;
          neg = (case t of [] \<Rightarrow> False | c # _ \<Rightarrow> c = CHR ''-'');
          u = (case t of [] \<Rightarrow> t
               | c # r \<Rightarrow> if c = CHR ''-'' \<or> c = CHR ''+'' then r else t);
          hex = (take 2 u = ''0x'' \<or> take 2 u = ''0X'');
          radix = (if hex then 16 else 10);
          v = (if hex then drop 2 u else u);
          ds = takeWhile (isDigit radix) v;
          ds' = (if radix = 10 \<and> zeroesLongDigits h then zeroAfter20 ds else ds)
      in if ds = [] then NaN
         else toDouble ((if neg then - 1 else 1) * digitsValue radix ds'))"

text \<open>
  \<open>Array.prototype.sort(comparefn)\<close>. The sort sees a \<open>NaN\<close> from the comparator as \<open>0\<close>
  and uses the sign of any other value (\<open>sortCompare\<close>). A comparator is consistent for
  the elements of the array when it never gives \<open>NaN\<close> and its three relations (below,
  equal, above) are what the language asks: equal is reflexive, symmetric and transitive,
  below and above are transitive. For a consistent comparator the language fixes the
  result: the elements in ascending order, elements that compare equal in their old order.
  This is what the insertion sort \<open>stableSort\<close> computes. For any other comparator the
  order is the engine's (\<open>sortOrder\<close> of the host), a rearrangement of the array in any
  case: a host whose \<open>sortOrder\<close> does not list every position once describes no
  engine, and the array is then sorted by \<open>stableSort\<close> as well.
\<close>

definition sortCompare :: "('a \<Rightarrow> 'a \<Rightarrow> number) \<Rightarrow> 'a \<Rightarrow> 'a \<Rightarrow> int" where
  "sortCompare comparefn a b =
     (case comparefn a b of NaN \<Rightarrow> 0 | NegInf \<Rightarrow> - 1 | Num v \<Rightarrow> v | PosInf \<Rightarrow> 1)"

definition consistent :: "('a \<Rightarrow> 'a \<Rightarrow> number) \<Rightarrow> 'a list \<Rightarrow> bool" where
  "consistent comparefn xs =
     (list_all (\<lambda>a. list_all (\<lambda>b. comparefn a b \<noteq> NaN) xs) xs
      \<and> list_all (\<lambda>a. sortCompare comparefn a a = 0) xs
      \<and> list_all (\<lambda>a. list_all (\<lambda>b.
           sortCompare comparefn a b = 0 \<longrightarrow> sortCompare comparefn b a = 0) xs) xs
      \<and> list_all (\<lambda>a. list_all (\<lambda>b. list_all (\<lambda>d.
           (sortCompare comparefn a b = 0 \<and> sortCompare comparefn b d = 0
              \<longrightarrow> sortCompare comparefn a d = 0)
           \<and> (sortCompare comparefn a b < 0 \<and> sortCompare comparefn b d < 0
              \<longrightarrow> sortCompare comparefn a d < 0)
           \<and> (sortCompare comparefn a b > 0 \<and> sortCompare comparefn b d > 0
              \<longrightarrow> sortCompare comparefn a d > 0)) xs) xs) xs)"

fun insertSorted :: "('a \<Rightarrow> 'a \<Rightarrow> number) \<Rightarrow> 'a \<Rightarrow> 'a list \<Rightarrow> 'a list" where
  "insertSorted comparefn x [] = [x]"
| "insertSorted comparefn x (y # ys) =
     (if sortCompare comparefn x y \<le> 0 then x # y # ys
      else y # insertSorted comparefn x ys)"

definition stableSort :: "('a \<Rightarrow> 'a \<Rightarrow> number) \<Rightarrow> 'a list \<Rightarrow> 'a list" where
  "stableSort comparefn xs = foldr (insertSorted comparefn) xs []"

definition arraySort :: "host \<Rightarrow> ('a \<Rightarrow> 'a \<Rightarrow> number) \<Rightarrow> 'a list \<Rightarrow> 'a list" where
  "arraySort h comparefn xs =
     (if consistent comparefn xs then stableSort comparefn xs
      else (let p = sortOrder h (length xs) (\<lambda>i j. sortCompare comparefn (xs ! i) (xs ! j))
            in if sort p = [0..<length xs] then map (\<lambda>i. xs ! i) p
               else stableSort comparefn xs))"

text \<open>
  What "stably sorted" means, whatever the algorithm: \<open>ys\<close> is a rearrangement of \<open>xs\<close>,
  no element of \<open>ys\<close> is above a later one, and elements that compare equal stand in \<open>ys\<close>
  in the order they have in \<open>xs\<close>.
\<close>

definition stablySorted :: "('a \<Rightarrow> 'a \<Rightarrow> number) \<Rightarrow> 'a list \<Rightarrow> 'a list \<Rightarrow> bool" where
  "stablySorted comparefn xs ys =
     (mset ys = mset xs
      \<and> sorted_wrt (\<lambda>a b. sortCompare comparefn a b \<le> 0) ys
      \<and> (\<forall>a \<in> set xs. filter (\<lambda>b. sortCompare comparefn a b = 0) ys
                         = filter (\<lambda>b. sortCompare comparefn a b = 0) xs))"

text \<open>
  The order of one engine, V8, for arrays of fewer than 64 elements: the run at the start
  of the array is found (and reversed when it descends), then the other elements are put
  in place one by one by binary search. Longer arrays, for which V8 merges runs, are left
  as they are here.
\<close>

fun runLength :: "(nat \<Rightarrow> nat \<Rightarrow> int) \<Rightarrow> bool \<Rightarrow> nat \<Rightarrow> nat list \<Rightarrow> nat" where
  "runLength cmp descending previous [] = 0"
| "runLength cmp descending previous (x # xs) =
     (let order = cmp x previous
      in if (if descending then order \<ge> 0 else order < 0) then 0
         else Suc (runLength cmp descending x xs))"

function binaryInsert :: "(nat \<Rightarrow> nat \<Rightarrow> int) \<Rightarrow> nat \<Rightarrow> nat list \<Rightarrow> nat list" where
  "binaryInsert cmp pivot xs =
     (case drop (length xs div 2) xs of
        [] \<Rightarrow> [pivot]
      | m # r \<Rightarrow>
          if cmp pivot m < 0
          then binaryInsert cmp pivot (take (length xs div 2) xs) @ m # r
          else take (length xs div 2) xs @ m # binaryInsert cmp pivot r)"
  by pat_completeness auto
termination
proof (relation "measure (\<lambda>(cmp, pivot, xs). length xs)")
  show "wf (measure (\<lambda>(cmp, pivot, xs). length xs))"
    by simp
next
  fix cmp :: "nat \<Rightarrow> nat \<Rightarrow> int" and pivot :: nat and xs m r
  assume d: "drop (length xs div 2) xs = m # r"
  then have "xs \<noteq> []"
    by auto
  then show "((cmp, pivot, take (length xs div 2) xs), cmp, pivot, xs)
               \<in> measure (\<lambda>(cmp, pivot, xs). length xs)"
    by simp
  from d have "length (drop (length xs div 2) xs) = Suc (length r)"
    by simp
  then show "((cmp, pivot, r), cmp, pivot, xs) \<in> measure (\<lambda>(cmp, pivot, xs). length xs)"
    by simp
qed

declare binaryInsert.simps [simp del]

definition v8Order :: "nat \<Rightarrow> (nat \<Rightarrow> nat \<Rightarrow> int) \<Rightarrow> nat list" where
  "v8Order n cmp =
     (case [0..<n] of
        a0 # a1 # rest \<Rightarrow>
          if n < 64
          then (let descending = (cmp a1 a0 < 0);
                    k = 2 + runLength cmp descending a1 rest;
                    run = take k [0..<n]
                in foldl (\<lambda>sorted pivot. binaryInsert cmp pivot sorted)
                     (if descending then rev run else run) (drop k [0..<n]))
          else [0..<n]
      | _ \<Rightarrow> [0..<n])"

section \<open>The blog list: data model\<close>

record blog_entry =
  title :: string
  author :: string
  published_date :: string
  reading_time :: string
  content :: string
  category :: string
  tags :: "string list option"
  image :: string

text \<open>
  A DOM element as far as the controllers use it: its class list and its text.
  \<open>classList.add\<close> appends a token that is not there yet, \<open>classList.remove\<close> deletes it.
\<close>

record element =
  classList :: "string list"
  textContent :: string

definition classAdd :: "string \<Rightarrow> 'a element_scheme \<Rightarrow> 'a element_scheme" where
  "classAdd c el =
     (if c \<in> set (classList el) then el else el\<lparr>classList := classList el @ [c]\<rparr>)"

definition classRemove :: "string \<Rightarrow> 'a element_scheme \<Rightarrow> 'a element_scheme" where
  "classRemove c el = el\<lparr>classList := removeAll c (classList el)\<rparr>"

definition classToggle :: "string \<Rightarrow> 'a element_scheme \<Rightarrow> 'a element_scheme" where
  "classToggle c el = (if c \<in> set (classList el) then classRemove c el else classAdd c el)"

text \<open>
  The content of the list container: one article per rendered entry, or the notice
  \<open><p class="no-results">No blogs found</p>\<close>.
\<close>

datatype markup = Article blog_entry | NoResults

record cache_entry =
  data :: "blog_entry list"
  timestamp :: int

text \<open>
  The fields of \<open>BlogList\<close>. The loading indicator and the error container are optional
  (the source guards every use of them); the list container is dereferenced unguarded.
  \<open>page\<close> and \<open>perPage\<close> are natural numbers: the source only ever stores \<open>1\<close> and \<open>10\<close>.
  \<open>items\<close> and the cached array are never mutated in place (\<open>sort\<close> runs on
  \<open>filteredItems\<close>, which is always a fresh array), so arrays are values.
  \<open>listening\<close> records that \<open>setupEventListeners\<close> has registered the handlers.
\<close>

record blog_list =
  listContainer :: "markup list"
  loadingIndicator :: "element option"
  errorContainer :: "element option"
  apiUrl :: string
  items :: "blog_entry list"
  filteredItems :: "blog_entry list"
  page :: nat
  perPage :: nat
  cache :: "string \<rightharpoonup> cache_entry"
  cacheExpiry :: int
  currentSort :: string
  currentFilter :: string
  currentSearch :: string
  listening :: bool

definition constructor ::
  "markup list \<Rightarrow> element option \<Rightarrow> element option \<Rightarrow> blog_list" where
  "constructor lc li ec =
     \<lparr> listContainer = lc, loadingIndicator = li, errorContainer = ec,
       apiUrl = ''https://frontend-blog-lyart.vercel.app/blogsData.json'',
       items = [], filteredItems = [], page = 1, perPage = 10,
       cache = Map.empty, cacheExpiry = 5 * 60 * 1000,
       currentSort = [], currentFilter = [], currentSearch = [], listening = False \<rparr>"

section \<open>The blog list: rendering and the three criterion handlers\<close>

definition render :: "blog_list \<Rightarrow> blog_list" where
  "render st =
     (let end = page st * perPage st;
          slice = take end (filteredItems st);
          st1 = st\<lparr>listContainer := map Article slice\<rparr>
      in if length slice = 0 then st1\<lparr>listContainer := [NoResults]\<rparr> else st1)"

text \<open>The comparator closure of \<open>onSortChange\<close>.\<close>

definition comparator :: "host \<Rightarrow> string \<Rightarrow> blog_entry \<Rightarrow> blog_entry \<Rightarrow> number" where
  "comparator h by a b =
     (if by = ''date''
        then numSub (dateValue h (published_date b)) (dateValue h (published_date a))
      else if by = ''reading_time''
        then numSub (parseInt h (reading_time b)) (parseInt h (reading_time a))
      else if by = ''category''
        then Num (localeCompare h (category a) (category b))
      else Num 0)"

definition onSortChange :: "host \<Rightarrow> string \<Rightarrow> blog_list \<Rightarrow> blog_list" where
  "onSortChange h by st =
     (let st1 = st\<lparr>currentSort := by\<rparr>;
          st2 = (if by \<noteq> []
                 then st1\<lparr>filteredItems := arraySort h (comparator h by) (filteredItems st1)\<rparr>
                 else st1)
      in render (st2\<lparr>page := 1\<rparr>))"

text \<open>The predicate of the category filter and the one of the title search.\<close>

definition matchesFilter :: "string \<Rightarrow> blog_entry \<Rightarrow> bool" where
  "matchesFilter val item =
     (category item = val \<or> (case tags item of None \<Rightarrow> False | Some ts \<Rightarrow> val \<in> set ts))"

definition matchesSearch :: "string \<Rightarrow> blog_entry \<Rightarrow> bool" where
  "matchesSearch q item = includesStr (toLowerCase (title item)) q"

definition onFilterChange :: "host \<Rightarrow> string \<Rightarrow> blog_list \<Rightarrow> blog_list" where
  "onFilterChange h val st =
     (let st1 = st\<lparr>currentFilter := val\<rparr>;
          st2 = (if val \<noteq> []
                 then st1\<lparr>filteredItems := filter (matchesFilter val) (items st1)\<rparr>
                 else st1\<lparr>filteredItems := items st1\<rparr>);
          st3 = (if currentSearch st2 \<noteq> []
                 then st2\<lparr>filteredItems :=
                        filter (matchesSearch (currentSearch st2)) (filteredItems st2)\<rparr>
                 else st2);
          st4 = (if currentSort st3 \<noteq> [] then onSortChange h (currentSort st3) st3 else st3)
      in render (st4\<lparr>page := 1\<rparr>))"

definition onSearchInput :: "host \<Rightarrow> string \<Rightarrow> blog_list \<Rightarrow> blog_list" where
  "onSearchInput h v st =
     (let q = toLowerCase v;
          st1 = st\<lparr>currentSearch := q\<rparr>;
          st2 = (if q \<noteq> []
                 then (let a = st1\<lparr>filteredItems := filter (matchesSearch q) (items st1)\<rparr>;
                           b = (if currentFilter a \<noteq> []
                                then a\<lparr>filteredItems :=
                                       filter (matchesFilter (currentFilter a)) (filteredItems a)\<rparr>
                                else a)
                       in if currentSort b \<noteq> [] then onSortChange h (currentSort b) b else b)
                 else (let a = st1\<lparr>filteredItems := items st1\<rparr>
                       in if currentFilter a \<noteq> [] then onFilterChange h (currentFilter a) a
                          else a))
      in render (st2\<lparr>page := 1\<rparr>))"

text \<open>The three events of the controls, and a run of the handlers over a sequence of them.\<close>

datatype event = SortChange string | FilterChange string | SearchInput string

fun handle :: "host \<Rightarrow> event \<Rightarrow> blog_list \<Rightarrow> blog_list" where
  "handle h (SortChange v) st = onSortChange h v st"
| "handle h (FilterChange v) st = onFilterChange h v st"
| "handle h (SearchInput v) st = onSearchInput h v st"

definition run :: "host \<Rightarrow> event list \<Rightarrow> blog_list \<Rightarrow> blog_list" where
  "run h evs st = foldl (\<lambda>s ev. handle h ev s) st evs"

section \<open>The blog list: fetching with cache and retry\<close>

text \<open>
  What \<open>fetch(url)\<close> and \<open>res.json()\<close> can give: the promise of \<open>fetch\<close> rejects (no
  network), or there is a response with a status and a body; the body is malformed (then
  \<open>res.json()\<close> rejects with the parser's message), or it is JSON that is an array of
  entries, or JSON that is no array.
\<close>

datatype body = Malformed string | JsonArray "blog_entry list" | JsonOther

datatype response = Rejected string | Response nat body

text \<open>
  The world around the controller: the clock \<open>Date.now()\<close> in milliseconds, the network
  (the response to the \<open>n\<close>-th call of \<open>fetch\<close>, by URL), the URLs fetched so far
  and the waits of \<open>setTimeout\<close> so far, both in order. A wait of \<open>ms\<close> moves the clock
  by \<open>ms\<close>; the time a request takes is not modelled.
\<close>

record world =
  now :: int
  network :: "string \<Rightarrow> nat \<Rightarrow> response"
  requests :: "string list"
  delays :: "int list"

definition sleep :: "int \<Rightarrow> world \<Rightarrow> world" where
  "sleep ms w = w\<lparr>now := now w + ms, delays := delays w @ [ms]\<rparr>"

fun showNat :: "nat \<Rightarrow> string" where
  "showNat n =
     (if n < 10 then [char_of (48 + n)] else showNat (n div 10) @ [char_of (48 + n mod 10)])"

declare showNat.simps [simp del]

text \<open>\<open>res.ok\<close>: the status is in the range 200 to 299.\<close>

definition ok :: "nat \<Rightarrow> bool" where
  "ok status = (200 \<le> status \<and> status \<le> 299)"

text \<open>
  One pass through the inner \<open>try\<close> block up to the point where the data is known to be
  an array: the message of the error thrown (\<open>Inl\<close>), or the array (\<open>Inr\<close>).
\<close>

definition attempt :: "response \<Rightarrow> string + blog_entry list" where
  "attempt res =
     (case res of
        Rejected msg \<Rightarrow> Inl msg
      | Response status b \<Rightarrow>
          if \<not> ok status then Inl (''HTTP error! status: '' @ showNat status)
          else (case b of
                  Malformed msg \<Rightarrow> Inl msg
                | JsonOther \<Rightarrow> Inl ''Unexpected API response''
                | JsonArray d \<Rightarrow> Inr d))"

text \<open>
  A thrown value: an \<open>Error\<close> with its message, or \<open>undefined\<close> (\<open>lastError\<close> before the
  first failure).
\<close>

datatype thrown = Error string | Undefined

text \<open>
  The loop \<open>while (retries > 0)\<close>; the first argument is \<open>retries\<close>. The result is the
  value thrown after the loop, or \<open>None\<close> when an attempt returned.
\<close>

fun retryLoop ::
  "nat \<Rightarrow> thrown \<Rightarrow> blog_list \<Rightarrow> world \<Rightarrow> thrown option \<times> blog_list \<times> world" where
  "retryLoop 0 lastError st w = (Some lastError, st, w)"
| "retryLoop (Suc retries) lastError st w =
     (let res = network w (apiUrl st) (length (requests w));
          w1 = w\<lparr>requests := requests w @ [apiUrl st]\<rparr>
      in case attempt res of
           Inr d \<Rightarrow>
             (None,
              st\<lparr>cache := (cache st)(apiUrl st \<mapsto> \<lparr>data = d, timestamp = now w1\<rparr>),
                 items := d, filteredItems := d\<rparr>,
              w1)
         | Inl msg \<Rightarrow>
             retryLoop retries (Error msg) st
               (if retries > 0 then sleep (1000 * (3 - int retries)) w1 else w1))"

text \<open>
  The outer \<open>catch\<close>: the error is wrapped with its message. Reading \<open>message\<close> of
  \<open>undefined\<close> would throw a \<open>TypeError\<close> instead, with a message of the engine
  (abridged here); the loop starts with three retries, so \<open>lastError\<close> is always set
  when it is thrown.
\<close>

fun failedToFetch :: "thrown \<Rightarrow> string" where
  "failedToFetch (Error msg) = ''Failed to fetch blogs: '' @ msg"
| "failedToFetch Undefined = ''Cannot read properties of undefined''"

text \<open>
  \<open>fetchData\<close>: the message of the error it rejects with, or \<open>None\<close> when it returns.
  \<open>freshEntry\<close> is the cache check at its start: the entry of the URL when there is one
  and \<open>Date.now() - timestamp < cacheExpiry\<close>.
\<close>

definition freshEntry :: "blog_list \<Rightarrow> world \<Rightarrow> cache_entry option" where
  "freshEntry st w =
     (case cache st (apiUrl st) of
        None \<Rightarrow> None
      | Some c \<Rightarrow> if now w - timestamp c < cacheExpiry st then Some c else None)"

definition fetchData :: "blog_list \<Rightarrow> world \<Rightarrow> string option \<times> blog_list \<times> world" where
  "fetchData st w =
     (case freshEntry st w of
        Some c \<Rightarrow> (None, st\<lparr>items := data c, filteredItems := data c\<rparr>, w)
      | None \<Rightarrow>
          (case retryLoop 3 Undefined st w of
             (None, st', w') \<Rightarrow> (None, st', w')
           | (Some e, st', w') \<Rightarrow> (Some (failedToFetch e), st', w')))"

definition showLoading :: "blog_list \<Rightarrow> blog_list" where
  "showLoading st =
     st\<lparr>loadingIndicator := map_option (classRemove ''hidden'') (loadingIndicator st)\<rparr>"

definition hideLoading :: "blog_list \<Rightarrow> blog_list" where
  "hideLoading st =
     st\<lparr>loadingIndicator := map_option (classAdd ''hidden'') (loadingIndicator st)\<rparr>"

definition showError :: "string \<Rightarrow> blog_list \<Rightarrow> blog_list" where
  "showError msg st =
     (case errorContainer st of
        None \<Rightarrow> st
      | Some el \<Rightarrow>
          st\<lparr>errorContainer :=
               Some ((classRemove ''hidden'' el)\<lparr>textContent := ''Error: '' @ msg\<rparr>)\<rparr>)"

definition setupEventListeners :: "blog_list \<Rightarrow> blog_list" where
  "setupEventListeners st = st\<lparr>listening := True\<rparr>"

text \<open>\<open>init\<close>: \<open>try\<close>, \<open>catch\<close> and \<open>finally\<close> in the order of the source.\<close>

definition init :: "blog_list \<Rightarrow> world \<Rightarrow> blog_list \<times> world" where
  "init st w =
     (case fetchData (showLoading st) w of
        (None, st', w') \<Rightarrow> (hideLoading (render (setupEventListeners st')), w')
      | (Some msg, st', w') \<Rightarrow> (hideLoading (showError msg st'), w'))"

section \<open>The navigation bar\<close>

text \<open>
  The two elements that the menu handlers write: the class list of \<open>.nav-list\<close> and the
  attributes of \<open>.nav-toggle\<close>. \<open>window.innerWidth\<close> is an argument of the resize handler.
\<close>

record navigation =
  navList :: element
  navToggle :: "string \<rightharpoonup> string"

definition toggleNav :: "navigation \<Rightarrow> navigation" where
  "toggleNav nav =
     (let isExpanded = (navToggle nav ''aria-expanded'' = Some ''true'')
      in nav\<lparr>navToggle := (navToggle nav)(''aria-expanded'' \<mapsto>
                                (if isExpanded then ''false'' else ''true'')),
             navList := classToggle ''nav-list--visible'' (navList nav)\<rparr>)"

definition closeNav :: "navigation \<Rightarrow> navigation" where
  "closeNav nav =
     nav\<lparr>navToggle := (navToggle nav)(''aria-expanded'' \<mapsto> ''false''),
         navList := classRemove ''nav-list--visible'' (navList nav)\<rparr>"

definition handleResize :: "int \<Rightarrow> navigation \<Rightarrow> navigation" where
  "handleResize innerWidth nav =
     (if innerWidth \<ge> 768
      then nav\<lparr>navList := classRemove ''nav-list--visible'' (navList nav),
               navToggle := (navToggle nav)(''aria-expanded'' \<mapsto> ''false'')\<rparr>
      else nav)"

section \<open>Drag and drop\<close>

text \<open>
  The document as the drag controller sees it, in two levels: containers (the drop zones
  and the places the items start in) hold draggable items. Both live in a store indexed by
  address, since the controller keeps a reference to the dragged item and mutates it
  through that reference; a container lists the addresses of its children in document
  order, and \<open>fresh\<close> is the next unused item address. Only containers carry the class
  \<open>drop-zone\<close>.
\<close>

record item = element +
  style_position :: string
  style_left :: string
  style_top :: string

record container = element +
  children :: "nat list"

record drag_drop =
  draggedItem :: "nat option"
  touchTimeout :: bool
  initialX :: int
  initialY :: int
  nodes :: "nat \<Rightarrow> item"
  fresh :: nat
  containers :: "nat \<Rightarrow> container"

text \<open>\<open>x.cloneNode(true)\<close>: a new node with the content of \<open>x\<close>; its address is returned.\<close>

definition cloneNode :: "nat \<Rightarrow> drag_drop \<Rightarrow> nat \<times> drag_drop" where
  "cloneNode x st = (fresh st, st\<lparr>nodes := (nodes st)(fresh st := nodes st x),
                                   fresh := Suc (fresh st)\<rparr>)"

text \<open>\<open>x.remove()\<close>: the node leaves its parent, whichever it is.\<close>

definition removeNode :: "nat \<Rightarrow> drag_drop \<Rightarrow> drag_drop" where
  "removeNode x st =
     st\<lparr>containers := (\<lambda>z. (containers st z)\<lparr>children := removeAll x (children (containers st z))\<rparr>)\<rparr>"

text \<open>\<open>z.appendChild(x)\<close>: the node leaves its parent and becomes the last child of \<open>z\<close>.\<close>

definition appendChild :: "nat \<Rightarrow> nat \<Rightarrow> drag_drop \<Rightarrow> drag_drop" where
  "appendChild z x st =
     (let st1 = removeNode x st
      in st1\<lparr>containers := (containers st1)
               (z := (containers st1 z)\<lparr>children := children (containers st1 z) @ [x]\<rparr>)\<rparr>)"

definition isDropZone :: "drag_drop \<Rightarrow> nat \<Rightarrow> bool" where
  "isDropZone st z = (''drop-zone'' \<in> set (classList (containers st z)))"

text \<open>\<open>document.querySelectorAll('.drop-zone').forEach(zone => zone.classList.remove('drag-over'))\<close>\<close>

definition clearDragOver :: "drag_drop \<Rightarrow> drag_drop" where
  "clearDragOver st =
     st\<lparr>containers := (\<lambda>z. if isDropZone st z then classRemove ''drag-over'' (containers st z)
                             else containers st z)\<rparr>"

text \<open>\<open>dragstart\<close> and \<open>dragend\<close> on the item at address \<open>x\<close>.\<close>

definition handleDragStart :: "nat \<Rightarrow> drag_drop \<Rightarrow> drag_drop" where
  "handleDragStart x st =
     st\<lparr>draggedItem := Some x, nodes := (nodes st)(x := classAdd ''dragging'' (nodes st x))\<rparr>"

definition handleDragEnd :: "nat \<Rightarrow> drag_drop \<Rightarrow> drag_drop" where
  "handleDragEnd x st =
     clearDragOver (st\<lparr>nodes := (nodes st)(x := classRemove ''dragging'' (nodes st x)),
                       draggedItem := None\<rparr>)"

text \<open>
  \<open>drop\<close>. The argument is the container that is \<open>e.target\<close> or holds it, if any;
  \<open>closest('.drop-zone')\<close> finds it when it is a drop zone.
\<close>

definition handleDrop :: "nat option \<Rightarrow> drag_drop \<Rightarrow> drag_drop" where
  "handleDrop target st =
     (let dropZone = (case target of
                        None \<Rightarrow> None
                      | Some z \<Rightarrow> if isDropZone st z then Some z else None)
      in case dropZone of
           None \<Rightarrow> st
         | Some z \<Rightarrow>
             (case draggedItem st of
                None \<Rightarrow> st
              | Some x \<Rightarrow>
                  (let (clonedItem, st1) = cloneNode x st;
                       st2 = appendChild z clonedItem st1;
                       st3 = removeNode x st2
                   in st3\<lparr>containers := (containers st3)
                            (z := classRemove ''drag-over'' (containers st3 z))\<rparr>)))"

text \<open>
  \<open>touchstart\<close>: the argument is \<open>e.target.closest('.draggable-item')\<close> and the position of
  the touch. The timer of 200 ms is pending until \<open>touchTimer\<close> runs or \<open>touchend\<close>
  clears it.
\<close>

definition handleTouchStart :: "nat option \<Rightarrow> int \<Rightarrow> int \<Rightarrow> drag_drop \<Rightarrow> drag_drop" where
  "handleTouchStart target clientX clientY st =
     st\<lparr>initialX := clientX, initialY := clientY, draggedItem := target, touchTimeout := True\<rparr>"

definition touchTimer :: "drag_drop \<Rightarrow> drag_drop" where
  "touchTimer st =
     (let st1 = st\<lparr>touchTimeout := False\<rparr>
      in case draggedItem st1 of
           None \<Rightarrow> st1
         | Some x \<Rightarrow> st1\<lparr>nodes := (nodes st1)(x := classAdd ''dragging'' (nodes st1 x))\<rparr>)"

definition showInt :: "int \<Rightarrow> string" where
  "showInt i = (if i < 0 then CHR ''-'' # showNat (nat (- i)) else showNat (nat i))"

text \<open>
  \<open>touchmove\<close> and \<open>touchend\<close>. \<open>hit\<close> is the result of \<open>document.elementFromPoint\<close> at the
  touch: the container that is the topmost element there, if one is.
\<close>

definition handleTouchMove :: "int \<Rightarrow> int \<Rightarrow> nat option \<Rightarrow> drag_drop \<Rightarrow> drag_drop" where
  "handleTouchMove clientX clientY hit st =
     (case draggedItem st of
        None \<Rightarrow> st
      | Some x \<Rightarrow>
          (let st1 = st\<lparr>nodes := (nodes st)
                       (x := (nodes st x)\<lparr>style_position := ''fixed'',
                                           style_left := showInt (clientX - 50) @ ''px'',
                                           style_top := showInt (clientY - 25) @ ''px''\<rparr>)\<rparr>
           in case hit of
                None \<Rightarrow> st1
              | Some z \<Rightarrow>
                  if isDropZone st1 z
                  then st1\<lparr>containers := (containers st1)
                             (z := classAdd ''drag-over'' (containers st1 z))\<rparr>
                  else st1))"

definition clearStyle :: "item \<Rightarrow> item" where
  "clearStyle it = it\<lparr>style_position := [], style_left := [], style_top := []\<rparr>"

definition isDraggable :: "drag_drop \<Rightarrow> nat \<Rightarrow> bool" where
  "isDraggable st i = (''draggable-item'' \<in> set (classList (nodes st i)))"

definition handleTouchEnd :: "nat option \<Rightarrow> drag_drop \<Rightarrow> drag_drop" where
  "handleTouchEnd hit st =
     (case draggedItem st of
        None \<Rightarrow> st
      | Some x \<Rightarrow>
          (let st0 = st\<lparr>touchTimeout := False\<rparr>;
               dropZone = (case hit of
                             None \<Rightarrow> None
                           | Some z \<Rightarrow> if isDropZone st0 z then Some z else None);
               st5 = (case dropZone of
                        Some z \<Rightarrow>
                          (let (clonedItem, st1) = cloneNode x st0;
                               st2 = st1\<lparr>nodes := (nodes st1)
                                       (clonedItem := clearStyle (nodes st1 clonedItem))\<rparr>;
                               existingItems = filter (isDraggable st2) (children (containers st2 z));
                               st3 = fold removeNode existingItems st2;
                               st4 = appendChild z clonedItem st3
                           in removeNode x st4)
                      | None \<Rightarrow> st0\<lparr>nodes := (nodes st0)(x := clearStyle (nodes st0 x))\<rparr>);
               st6 = st5\<lparr>nodes := (nodes st5)(x := classRemove ''dragging'' (nodes st5 x)),
                         draggedItem := None\<rparr>
           in clearDragOver st6))"

section \<open>The composition the specification describes\<close>

text \<open>
  The specification's pipeline: the filter, then the search, then the sort of the criteria
  stored in the state, applied to the full \<open>items\<close> array. An empty criterion selects
  nothing to do.
\<close>

definition applyFilter :: "string \<Rightarrow> blog_entry list \<Rightarrow> blog_entry list" where
  "applyFilter val xs = (if val = [] then xs else filter (matchesFilter val) xs)"

definition applySearch :: "string \<Rightarrow> blog_entry list \<Rightarrow> blog_entry list" where
  "applySearch q xs = (if q = [] then xs else filter (matchesSearch q) xs)"

definition applySort :: "host \<Rightarrow> string \<Rightarrow> blog_entry list \<Rightarrow> blog_entry list" where
  "applySort h by xs = (if by = [] then xs else arraySort h (comparator h by) xs)"

definition pipeline :: "host \<Rightarrow> blog_list \<Rightarrow> blog_entry list" where
  "pipeline h st =
     applySort h (currentSort st)
       (applySearch (currentSearch st) (applyFilter (currentFilter st) (items st)))"

section \<open>Example data\<close>

text \<open>
  A host for the examples: the time values of the two ISO dates the examples use (any
  other string counts as an invalid date here), a collation by code units (the browser's
  order on words of lower-case ASCII letters), the sort order of V8, and a \<open>parseInt\<close>
  that keeps all digits.
\<close>

definition exampleHost :: host where
  "exampleHost =
     \<lparr> dateValue = (\<lambda>s. if s = ''2024-01-01'' then Num 1704067200000
                         else if s = ''2024-01-02'' then Num 1704153600000 else NaN),
       localeCompare = (\<lambda>a b. if a = b then 0
                              else if (a, b) \<in> lexord {(c, d). of_char c < (of_char d :: nat)}
                              then - 1 else 1),
       sortOrder = v8Order,
       zeroesLongDigits = False \<rparr>"

definition entryA :: blog_entry where
  "entryA = \<lparr> title = ''A'', author = ''ann'', published_date = ''2024-01-01'',
              reading_time = ''5'', content = ''first'', category = ''x'',
              tags = None, image = ''a.png'' \<rparr>"

definition entryB :: blog_entry where
  "entryB = \<lparr> title = ''B'', author = ''bob'', published_date = ''2024-01-02'',
              reading_time = ''10'', content = ''second'', category = ''y'',
              tags = Some [''news''], image = ''b.png'' \<rparr>"

definition entryC :: blog_entry where
  "entryC = \<lparr> title = ''C'', author = ''cy'', published_date = ''2024-01-02'',
              reading_time = ''5 min'', content = ''third'', category = ''x'',
              tags = Some [''news'', ''y''], image = ''c.png'' \<rparr>"

text \<open>The controller after a successful load of the given array.\<close>

definition loaded :: "blog_entry list \<Rightarrow> blog_list" where
  "loaded d = (constructor [] None None)\<lparr>items := d, filteredItems := d\<rparr>"

text \<open>
  Two networks: one that answers 503, then a JSON object, then the array \<open>[A, B]\<close>; and
  one that never delivers (the third call gets a 500, the others are rejected).
\<close>

definition flakyNetwork :: "string \<Rightarrow> nat \<Rightarrow> response" where
  "flakyNetwork url n =
     (if n = 0 then Response 503 (Malformed ''Unexpected token < in JSON'')
      else if n = 1 then Response 200 JsonOther
      else Response 200 (JsonArray [entryA, entryB]))"

definition downNetwork :: "string \<Rightarrow> nat \<Rightarrow> response" where
  "downNetwork url n =
     (if n = 2 then Response 500 JsonOther else Rejected ''Failed to fetch'')"

definition worldAt :: "int \<Rightarrow> (string \<Rightarrow> nat \<Rightarrow> response) \<Rightarrow> world" where
  "worldAt t net = \<lparr> now = t, network = net, requests = [], delays = [] \<rparr>"

text \<open>
  A controller with a loading indicator and no error container, and one with both; and
  the first of them holding \<open>[C]\<close> in its cache since time \<open>t\<close>.
\<close>

definition bareList :: blog_list where
  "bareList =
     constructor [] (Some \<lparr>classList = [''loading-indicator'', ''hidden''], textContent = ''Loading''\<rparr>)
       None"

definition fullList :: blog_list where
  "fullList =
     constructor [] (Some \<lparr>classList = [''loading-indicator'', ''hidden''], textContent = ''Loading''\<rparr>)
       (Some \<lparr>classList = [''error-container'', ''hidden''], textContent = []\<rparr>)"

definition cachedAt :: "int \<Rightarrow> blog_list" where
  "cachedAt t =
     bareList\<lparr>cache := (cache bareList)(apiUrl bareList \<mapsto> \<lparr>data = [entryC], timestamp = t\<rparr>),
              items := [entryC], filteredItems := [entryC]\<rparr>"

text \<open>A navigation bar with the mobile menu open.\<close>

definition openNav :: navigation where
  "openNav =
     \<lparr> navList = \<lparr>classList = [''nav-list'', ''nav-list--visible''], textContent = []\<rparr>,
       navToggle = [''aria-expanded'' \<mapsto> ''true''] \<rparr>"

text \<open>
  A page with two draggable items and two containers: container 0 is the list the items
  start in and holds item 1 (\<open>X\<close>); container 1 is a drop zone that holds item 0 (\<open>Y\<close>)
  already.
\<close>

definition draggable :: "string \<Rightarrow> item" where
  "draggable name =
     \<lparr> classList = [''draggable-item''], textContent = name,
       style_position = [], style_left = [], style_top = [] \<rparr>"

definition examplePage :: drag_drop where
  "examplePage =
     \<lparr> draggedItem = None, touchTimeout = False, initialX = 0, initialY = 0,
       nodes = (\<lambda>i. if i = 0 then draggable ''Y'' else draggable ''X''),
       fresh = 2,
       containers = (\<lambda>z. if z = 0 then \<lparr>classList = [''item-list''], textContent = [], children = [1]\<rparr>
                          else if z = 1 then \<lparr>classList = [''drop-zone''], textContent = [], children = [0]\<rparr>
                          else \<lparr>classList = [], textContent = [], children = []\<rparr>) \<rparr>"

text \<open>
  The entries shown by the list container, and the invariant on which entries
  \<open>filteredItems\<close> holds: those that pass the stored filter and search.
\<close>

fun displayed :: "markup list \<Rightarrow> blog_entry list" where
  "displayed [] = []"
| "displayed (Article e # ms) = e # displayed ms"
| "displayed (NoResults # ms) = displayed ms"





text \<open>
  Keys that the comparators of the example entries follow: the time value of the date and
  the parsed reading time, negated since both orders descend.
\<close>

definition dateKey :: "blog_entry \<Rightarrow> int" where
  "dateKey e = (case dateValue exampleHost (published_date e) of Num n \<Rightarrow> - n | _ \<Rightarrow> 0)"


section \<open>Properties of the sort\<close>

lemma mset_insertSorted: "mset (insertSorted c x ys) = add_mset x (mset ys)"
  by (induction ys) auto

lemma mset_stableSort: "mset (stableSort c xs) = mset xs"
  by (induction xs) (auto simp: stableSort_def mset_insertSorted)

lemma mset_reordered:
  assumes "sort p = [0..<length xs]"
  shows "mset (map (\<lambda>i. xs ! i) p) = mset xs"
proof -
  have "mset (sort p) = mset p"
    by simp
  with assms have "mset p = mset [0..<length xs]"
    by simp
  then have "image_mset (\<lambda>i. xs ! i) (mset p) = image_mset (\<lambda>i. xs ! i) (mset [0..<length xs])"
    by simp
  then have "mset (map (\<lambda>i. xs ! i) p) = mset (map (\<lambda>i. xs ! i) [0..<length xs])"
    by simp
  then show ?thesis
    by (simp add: map_nth)
qed

lemma mset_arraySort: "mset (arraySort h c xs) = mset xs"
proof -
  let ?p = "sortOrder h (length xs) (\<lambda>i j. sortCompare c (xs ! i) (xs ! j))"
  show ?thesis
  proof (cases "\<not> consistent c xs \<and> sort ?p = [0..<length xs]")
    case True
    then have "arraySort h c xs = map (\<lambda>i. xs ! i) ?p"
      by (simp add: arraySort_def)
    with True show ?thesis
      by (simp only: mset_reordered)
  next
    case False
    then have "arraySort h c xs = stableSort c xs"
      by (auto simp add: arraySort_def)
    then show ?thesis
      by (simp add: mset_stableSort)
  qed
qed

lemma consistentD:
  assumes "consistent c xs"
  shows "a \<in> set xs \<Longrightarrow> sortCompare c a a = 0"
    and "a \<in> set xs \<Longrightarrow> b \<in> set xs \<Longrightarrow> sortCompare c a b = 0 \<Longrightarrow> sortCompare c b a = 0"
    and "a \<in> set xs \<Longrightarrow> b \<in> set xs \<Longrightarrow> d \<in> set xs \<Longrightarrow>
           sortCompare c a b = 0 \<Longrightarrow> sortCompare c b d = 0 \<Longrightarrow> sortCompare c a d = 0"
    and "a \<in> set xs \<Longrightarrow> b \<in> set xs \<Longrightarrow> d \<in> set xs \<Longrightarrow>
           sortCompare c a b < 0 \<Longrightarrow> sortCompare c b d < 0 \<Longrightarrow> sortCompare c a d < 0"
    and "a \<in> set xs \<Longrightarrow> b \<in> set xs \<Longrightarrow> d \<in> set xs \<Longrightarrow>
           sortCompare c a b > 0 \<Longrightarrow> sortCompare c b d > 0 \<Longrightarrow> sortCompare c a d > 0"
  using assms unfolding consistent_def list_all_iff by blast+

lemma above_below:
  assumes "consistent c xs" and "a \<in> set xs" and "b \<in> set xs"
    and "sortCompare c a b > 0"
  shows "sortCompare c b a < 0"
proof (rule ccontr)
  assume "\<not> sortCompare c b a < 0"
  then consider "sortCompare c b a = 0" | "sortCompare c b a > 0"
    by linarith
  then show False
  proof cases
    case 1
    with consistentD(2) [OF assms(1) assms(3) assms(2)] assms(4) show False
      by simp
  next
    case 2
    with consistentD(5) [OF assms(1) assms(2) assms(3) assms(2)] assms(4)
    have "sortCompare c a a > 0"
      by simp
    with consistentD(1) [OF assms(1) assms(2)] show False
      by simp
  qed
qed

lemma below_above:
  assumes "consistent c xs" and "a \<in> set xs" and "b \<in> set xs"
    and "sortCompare c a b < 0"
  shows "sortCompare c b a > 0"
proof (rule ccontr)
  assume "\<not> sortCompare c b a > 0"
  then consider "sortCompare c b a = 0" | "sortCompare c b a < 0"
    by linarith
  then show False
  proof cases
    case 1
    with consistentD(2) [OF assms(1) assms(3) assms(2)] assms(4) show False
      by simp
  next
    case 2
    with consistentD(4) [OF assms(1) assms(2) assms(3) assms(2)] assms(4)
    have "sortCompare c a a < 0"
      by simp
    with consistentD(1) [OF assms(1) assms(2)] show False
      by simp
  qed
qed

lemma equal_below:
  assumes "consistent c xs" and "a \<in> set xs" and "b \<in> set xs" and "d \<in> set xs"
    and "sortCompare c a b = 0" and "sortCompare c b d < 0"
  shows "sortCompare c a d < 0"
proof (rule ccontr)
  assume "\<not> sortCompare c a d < 0"
  then consider "sortCompare c a d = 0" | "sortCompare c a d > 0"
    by linarith
  then show False
  proof cases
    case 1
    from consistentD(2) [OF assms(1) assms(2) assms(3) assms(5)]
    have "sortCompare c b a = 0" .
    from consistentD(3) [OF assms(1) assms(3) assms(2) assms(4) this 1] assms(6)
    show False
      by simp
  next
    case 2
    from above_below [OF assms(1) assms(2) assms(4) 2]
    have "sortCompare c d a < 0" .
    from consistentD(4) [OF assms(1) assms(3) assms(4) assms(2) assms(6) this]
    have "sortCompare c b a < 0" .
    with consistentD(2) [OF assms(1) assms(2) assms(3) assms(5)] show False
      by simp
  qed
qed

lemma below_equal:
  assumes "consistent c xs" and "a \<in> set xs" and "b \<in> set xs" and "d \<in> set xs"
    and "sortCompare c a b < 0" and "sortCompare c b d = 0"
  shows "sortCompare c a d < 0"
proof (rule ccontr)
  assume "\<not> sortCompare c a d < 0"
  then consider "sortCompare c a d = 0" | "sortCompare c a d > 0"
    by linarith
  then show False
  proof cases
    case 1
    from consistentD(2) [OF assms(1) assms(3) assms(4) assms(6)]
    have "sortCompare c d b = 0" .
    from consistentD(3) [OF assms(1) assms(2) assms(4) assms(3) 1 this] assms(5)
    show False
      by simp
  next
    case 2
    from above_below [OF assms(1) assms(2) assms(4) 2]
    have "sortCompare c d a < 0" .
    from consistentD(4) [OF assms(1) assms(4) assms(2) assms(3) this assms(5)]
    have "sortCompare c d b < 0" .
    with consistentD(2) [OF assms(1) assms(3) assms(4) assms(6)] show False
      by simp
  qed
qed

lemma not_above_trans:
  assumes "consistent c xs" and "a \<in> set xs" and "b \<in> set xs" and "d \<in> set xs"
    and "sortCompare c a b \<le> 0" and "sortCompare c b d \<le> 0"
  shows "sortCompare c a d \<le> 0"
proof -
  consider "sortCompare c a b = 0" "sortCompare c b d = 0"
    | "sortCompare c a b = 0" "sortCompare c b d < 0"
    | "sortCompare c a b < 0" "sortCompare c b d = 0"
    | "sortCompare c a b < 0" "sortCompare c b d < 0"
    using assms(5,6) by linarith
  then show ?thesis
  proof cases
    case 1
    from consistentD(3) [OF assms(1-4) 1] show ?thesis
      by simp
  next
    case 2
    from equal_below [OF assms(1-4) 2] show ?thesis
      by simp
  next
    case 3
    from below_equal [OF assms(1-4) 3] show ?thesis
      by simp
  next
    case 4
    from consistentD(4) [OF assms(1-4) 4] show ?thesis
      by simp
  qed
qed

lemma set_insertSorted: "set (insertSorted c x ys) = insert x (set ys)"
  by (induction ys) auto

lemma set_stableSort: "set (stableSort c xs) = set xs"
  by (induction xs) (auto simp: stableSort_def set_insertSorted)

lemma sorted_insertSorted:
  assumes "consistent c xs" and "x \<in> set xs" and "set ys \<subseteq> set xs"
    and "sorted_wrt (\<lambda>a b. sortCompare c a b \<le> 0) ys"
  shows "sorted_wrt (\<lambda>a b. sortCompare c a b \<le> 0) (insertSorted c x ys)"
  using assms(3,4)
proof (induction ys)
  case Nil
  then show ?case by simp
next
  case (Cons y ys)
  from Cons.prems have y: "y \<in> set xs" and ys: "set ys \<subseteq> set xs"
    and le_y: "\<forall>z \<in> set ys. sortCompare c y z \<le> 0"
    and sorted: "sorted_wrt (\<lambda>a b. sortCompare c a b \<le> 0) ys"
    by auto
  show ?case
  proof (cases "sortCompare c x y \<le> 0")
    case True
    have "sortCompare c x z \<le> 0" if "z \<in> set ys" for z
    proof -
      from that ys have "z \<in> set xs"
        by auto
      from not_above_trans [OF assms(1) assms(2) y this True] le_y that show ?thesis
        by simp
    qed
    with True Cons.prems show ?thesis
      by auto
  next
    case False
    then have "sortCompare c x y > 0"
      by simp
    from above_below [OF assms(1) assms(2) y this] have "sortCompare c y x \<le> 0"
      by simp
    with False le_y Cons.IH [OF ys sorted] show ?thesis
      by (auto simp add: set_insertSorted)
  qed
qed

lemma sorted_stableSort:
  assumes "consistent c xs"
  shows "set ys \<subseteq> set xs \<Longrightarrow> sorted_wrt (\<lambda>a b. sortCompare c a b \<le> 0) (stableSort c ys)"
proof (induction ys)
  case Nil
  then show ?case by (simp add: stableSort_def)
next
  case (Cons y ys)
  then have "sorted_wrt (\<lambda>a b. sortCompare c a b \<le> 0) (stableSort c ys)"
    and "y \<in> set xs" and "set (stableSort c ys) \<subseteq> set xs"
    by (auto simp add: set_stableSort)
  from sorted_insertSorted [OF assms this(2) this(3) this(1)] show ?case
    by (simp add: stableSort_def)
qed

lemma filter_insertSorted:
  assumes "consistent c xs" and "a \<in> set xs" and "x \<in> set xs" and "set ys \<subseteq> set xs"
  shows "filter (\<lambda>b. sortCompare c a b = 0) (insertSorted c x ys)
           = filter (\<lambda>b. sortCompare c a b = 0) (x # ys)"
  using assms(4)
proof (induction ys)
  case Nil
  then show ?case by simp
next
  case (Cons y ys)
  then have y: "y \<in> set xs" and ys: "set ys \<subseteq> set xs"
    by auto
  show ?case
  proof (cases "sortCompare c x y \<le> 0")
    case True
    then show ?thesis by simp
  next
    case False
    have "\<not> (sortCompare c a x = 0 \<and> sortCompare c a y = 0)"
    proof
      assume both: "sortCompare c a x = 0 \<and> sortCompare c a y = 0"
      then have "sortCompare c x a = 0"
        using consistentD(2) [OF assms(1) assms(2) assms(3)] by simp
      from consistentD(3) [OF assms(1) assms(3) assms(2) y this] both
      have "sortCompare c x y = 0"
        by simp
      with False show False
        by simp
    qed
    with False Cons.IH [OF ys] show ?thesis
      by auto
  qed
qed

lemma filter_stableSort:
  assumes "consistent c xs" and "a \<in> set xs"
  shows "set ys \<subseteq> set xs \<Longrightarrow>
         filter (\<lambda>b. sortCompare c a b = 0) (stableSort c ys)
           = filter (\<lambda>b. sortCompare c a b = 0) ys"
proof (induction ys)
  case Nil
  then show ?case by (simp add: stableSort_def)
next
  case (Cons y ys)
  then have y: "y \<in> set xs" and sub: "set (stableSort c ys) \<subseteq> set xs"
    and IH: "filter (\<lambda>b. sortCompare c a b = 0) (stableSort c ys)
               = filter (\<lambda>b. sortCompare c a b = 0) ys"
    by (auto simp add: set_stableSort)
  have "stableSort c (y # ys) = insertSorted c y (stableSort c ys)"
    by (simp add: stableSort_def)
  with filter_insertSorted [OF assms y sub] IH show ?case
    by simp
qed

lemma stablySorted_stableSort:
  assumes "consistent c xs"
  shows "stablySorted c xs (stableSort c xs)"
  unfolding stablySorted_def
  using assms sorted_stableSort [OF assms, of xs] filter_stableSort [OF assms, of _ xs]
  by (simp add: mset_stableSort)


text \<open>
  A comparator that follows a key (an integer for each element, the comparator having the
  sign of the difference of the keys and never \<open>NaN\<close>) is consistent.
\<close>

lemma consistent_by_key:
  assumes "list_all (\<lambda>a. list_all (\<lambda>b.
             c a b \<noteq> NaN \<and> sgn (sortCompare c a b) = sgn (key a - key b)) xs) xs"
  shows "consistent c xs"
proof -
  have k: "sgn (sortCompare c a b) = sgn (key a - key b)" and n: "c a b \<noteq> NaN"
    if "a \<in> set xs" and "b \<in> set xs" for a b
    using assms that by (auto simp add: list_all_iff)
  have zero: "sortCompare c a b = 0 \<longleftrightarrow> key a = key b"
    if "a \<in> set xs" and "b \<in> set xs" for a b
    using k [OF that] by (auto simp add: sgn_if split: if_splits)
  have neg: "sortCompare c a b < 0 \<longleftrightarrow> key a < key b"
    if "a \<in> set xs" and "b \<in> set xs" for a b
    using k [OF that] by (auto simp add: sgn_if split: if_splits)
  have pos: "sortCompare c a b > 0 \<longleftrightarrow> key a > key b"
    if "a \<in> set xs" and "b \<in> set xs" for a b
    using k [OF that] by (auto simp add: sgn_if split: if_splits)
  show ?thesis
    unfolding consistent_def list_all_iff
    using n zero neg pos by (intro conjI ballI impI) auto
qed


text \<open>
  For a consistent comparator the three properties leave one arrangement only, so that
  \<open>stablySorted\<close> says which list the sort returns, not just what it is like.
\<close>

lemma sorted_stable_unique:
  assumes "consistent c xs"
  shows "set ys \<subseteq> set xs \<Longrightarrow> mset ys = mset zs \<Longrightarrow>
         sorted_wrt (\<lambda>a b. sortCompare c a b \<le> 0) ys \<Longrightarrow>
         sorted_wrt (\<lambda>a b. sortCompare c a b \<le> 0) zs \<Longrightarrow>
         (\<forall>a \<in> set xs. filter (\<lambda>b. sortCompare c a b = 0) ys
                         = filter (\<lambda>b. sortCompare c a b = 0) zs) \<Longrightarrow>
         ys = zs"
proof (induction ys arbitrary: zs)
  case Nil
  then show ?case by simp
next
  case (Cons y ys)
  from Cons.prems(2) obtain z zs' where zs: "zs = z # zs'"
    by (cases zs) auto
  from Cons.prems(1) have y: "y \<in> set xs" and ys: "set ys \<subseteq> set xs"
    by auto
  from Cons.prems(2) have sets: "set (y # ys) = set zs"
    by (metis set_mset_mset)
  with zs Cons.prems(1) have z: "z \<in> set xs"
    by auto
  have yy: "sortCompare c y y = 0" and zz: "sortCompare c z z = 0"
    using consistentD(1) [OF assms] y z by auto
  have "sortCompare c y z \<le> 0"
  proof -
    from sets zs have "z = y \<or> z \<in> set ys"
      by auto
    with Cons.prems(3) yy show ?thesis
      by auto
  qed
  moreover have "sortCompare c z y \<le> 0"
  proof -
    from sets zs have "y = z \<or> y \<in> set zs'"
      by auto
    with Cons.prems(4) zs zz show ?thesis
      by auto
  qed
  ultimately have yz: "sortCompare c y z = 0"
    using below_above [OF assms y z] by force
  from Cons.prems(5) y have "filter (\<lambda>b. sortCompare c y b = 0) (y # ys)
                              = filter (\<lambda>b. sortCompare c y b = 0) zs"
    by blast
  with yy yz zs have same: "y = z"
    by simp
  have "ys = zs'"
  proof (rule Cons.IH [OF ys])
    from Cons.prems(2) zs same show "mset ys = mset zs'"
      by simp
    from Cons.prems(3) show "sorted_wrt (\<lambda>a b. sortCompare c a b \<le> 0) ys"
      by simp
    from Cons.prems(4) zs show "sorted_wrt (\<lambda>a b. sortCompare c a b \<le> 0) zs'"
      by simp
    show "\<forall>a \<in> set xs. filter (\<lambda>b. sortCompare c a b = 0) ys
                         = filter (\<lambda>b. sortCompare c a b = 0) zs'"
    proof
      fix a
      assume "a \<in> set xs"
      with Cons.prems(5) have "filter (\<lambda>b. sortCompare c a b = 0) (y # ys)
                              = filter (\<lambda>b. sortCompare c a b = 0) (z # zs')"
        using zs by blast
      with same show "filter (\<lambda>b. sortCompare c a b = 0) ys
                         = filter (\<lambda>b. sortCompare c a b = 0) zs'"
        by (simp split: if_splits)
    qed
  qed
  with same zs show ?case
    by simp
qed

lemma stablySorted_unique:
  assumes "consistent c xs" and "stablySorted c xs ys"
  shows "ys = stableSort c xs"
proof -
  from assms(2) have ys: "mset ys = mset xs"
    and sorted: "sorted_wrt (\<lambda>a b. sortCompare c a b \<le> 0) ys"
    and stable: "\<forall>a \<in> set xs. filter (\<lambda>b. sortCompare c a b = 0) ys
                                 = filter (\<lambda>b. sortCompare c a b = 0) xs"
    by (simp_all add: stablySorted_def)
  from ys have sub: "set ys \<subseteq> set xs"
    by (metis set_mset_mset subset_refl)
  from stablySorted_stableSort [OF assms(1)]
  have "mset (stableSort c xs) = mset xs"
    and "sorted_wrt (\<lambda>a b. sortCompare c a b \<le> 0) (stableSort c xs)"
    and "\<forall>a \<in> set xs. filter (\<lambda>b. sortCompare c a b = 0) (stableSort c xs)
                        = filter (\<lambda>b. sortCompare c a b = 0) xs"
    by (simp_all add: stablySorted_def)
  with ys sorted stable show ?thesis
    by (intro sorted_stable_unique [OF assms(1) sub]) simp_all
qed

lemma arraySort_by_key:
  assumes "list_all (\<lambda>a. list_all (\<lambda>b.
             c a b \<noteq> NaN \<and> sgn (sortCompare c a b) = sgn (key a - key b)) xs) xs"
  shows "arraySort h c xs = stableSort c xs"
  using consistent_by_key [OF assms] by (simp add: arraySort_def)

section \<open>Properties of the handlers\<close>

lemma render_fields:
  "items (render st) = items st"
  "filteredItems (render st) = filteredItems st"
  "page (render st) = page st"
  "currentSort (render st) = currentSort st"
  "currentFilter (render st) = currentFilter st"
  "currentSearch (render st) = currentSearch st"
  by (simp_all add: render_def Let_def)

text \<open>
  Claim C3. After each of the three criterion handlers (sort change, filter change,
  search input) the pagination cursor \<open>page\<close> is \<open>1\<close>, whatever the state before.
\<close>

theorem page_reset_after_handlers:
  "page (onSortChange h v st) = 1 \<and> page (onFilterChange h v st) = 1
   \<and> page (onSearchInput h v st) = 1"
  by (simp add: onSortChange_def onFilterChange_def onSearchInput_def Let_def render_fields)

text \<open>
  Claim C10. The sort-change handler only reorders \<open>filteredItems\<close>: the multiset of its
  entries stays the same, and \<open>items\<close>, \<open>currentFilter\<close> and \<open>currentSearch\<close> are not
  modified.
\<close>

theorem onSortChange_only_reorders:
  "mset (filteredItems (onSortChange h by st)) = mset (filteredItems st)
   \<and> items (onSortChange h by st) = items st
   \<and> currentFilter (onSortChange h by st) = currentFilter st
   \<and> currentSearch (onSortChange h by st) = currentSearch st"
  by (simp add: onSortChange_def Let_def render_fields mset_arraySort)

subsection \<open>What each handler leaves in the state\<close>

lemma onSortChange_fields:
  "filteredItems (onSortChange h by st) = applySort h by (filteredItems st)"
  "items (onSortChange h by st) = items st"
  "currentSort (onSortChange h by st) = by"
  "currentFilter (onSortChange h by st) = currentFilter st"
  "currentSearch (onSortChange h by st) = currentSearch st"
  by (simp_all add: onSortChange_def applySort_def Let_def render_fields)

lemma onFilterChange_fields:
  "filteredItems (onFilterChange h v st) =
     applySort h (currentSort st) (applySearch (currentSearch st) (applyFilter v (items st)))"
  "items (onFilterChange h v st) = items st"
  "currentSort (onFilterChange h v st) = currentSort st"
  "currentFilter (onFilterChange h v st) = v"
  "currentSearch (onFilterChange h v st) = currentSearch st"
  by (simp_all add: onFilterChange_def applySort_def applySearch_def applyFilter_def Let_def
        render_fields onSortChange_fields)

lemma onSearchInput_fields:
  "filteredItems (onSearchInput h v st) =
     (if toLowerCase v \<noteq> [] \<or> currentFilter st \<noteq> []
      then applySort h (currentSort st)
             (applySearch (toLowerCase v) (applyFilter (currentFilter st) (items st)))
      else items st)"
  "items (onSearchInput h v st) = items st"
  "currentSort (onSearchInput h v st) = currentSort st"
  "currentFilter (onSearchInput h v st) = currentFilter st"
  "currentSearch (onSearchInput h v st) = toLowerCase v"
  by (simp_all add: onSearchInput_def applySort_def applySearch_def applyFilter_def Let_def
        render_fields onSortChange_fields onFilterChange_fields conj_commute)


lemma run_Nil: "run h [] st = st"
  by (simp add: run_def)







lemma displayed_Article: "displayed (map Article xs) = xs"
  by (induction xs) simp_all

lemma take_min_length: "take (min n (length xs)) xs = take n xs"
  by (cases "n \<le> length xs") (simp_all add: min_def)

subsection \<open>Rendering\<close>

text \<open>
  Claim C4. In every state \<open>render\<close> shows exactly the first
  \<open>min (page * perPage) (length filteredItems)\<close> entries of \<open>filteredItems\<close>, so never more
  than \<open>page * perPage\<close> of them, and puts the "no results" notice in place of the list when
  that slice is empty.
\<close>

theorem render_shows_first_page_window:
  "displayed (listContainer (render st)) =
     take (min (page st * perPage st) (length (filteredItems st))) (filteredItems st)
   \<and> length (displayed (listContainer (render st))) \<le> page st * perPage st
   \<and> listContainer (render st) =
       (if take (page st * perPage st) (filteredItems st) = [] then [NoResults]
        else map Article (take (page st * perPage st) (filteredItems st)))"
  by (simp add: render_def Let_def displayed_Article take_min_length)

subsection \<open>When the comparators of the blog list are consistent\<close>

lemma bitLength_pos: "0 < k \<Longrightarrow> bitLength k = Suc (bitLength (k div 2))"
  by (subst bitLength.simps) simp

lemma bitLength_nonpos: "k \<le> 0 \<Longrightarrow> bitLength k = 0"
  by (subst bitLength.simps) simp

lemma bitLength_lower: "0 < n \<Longrightarrow> 2 ^ (bitLength n - 1) \<le> n"
proof (induction n rule: bitLength.induct)
  case (1 n)
  from "1.prems" have n: "bitLength n - 1 = bitLength (n div 2)"
    by (simp add: bitLength_pos)
  show ?case
  proof (cases "n div 2 \<le> 0")
    case True
    then have "bitLength (n div 2) = 0"
      by (rule bitLength_nonpos)
    with n "1.prems" show ?thesis
      by simp
  next
    case False
    then have half: "0 < n div 2"
      by simp
    with "1.IH" "1.prems" have IH: "2 ^ (bitLength (n div 2) - 1) \<le> n div 2"
      by simp
    from half have "bitLength (n div 2) = Suc (bitLength (n div 2) - 1)"
      by (simp add: bitLength_pos)
    then have "(2::int) ^ bitLength (n div 2) = 2 * 2 ^ (bitLength (n div 2) - 1)"
      by (metis power_Suc)
    with IH have "2 ^ bitLength (n div 2) \<le> 2 * (n div 2)"
      by simp
    also have "\<dots> \<le> n"
      by simp
    finally show ?thesis
      by (simp only: n)
  qed
qed

text \<open>Rounding to a double keeps the sign, and never gives \<open>NaN\<close>.\<close>

lemma toDouble_sign:
  "toDouble n \<noteq> NaN"
  "sgn (case toDouble n of NaN \<Rightarrow> 0 | NegInf \<Rightarrow> - 1 | Num v \<Rightarrow> v | PosInf \<Rightarrow> 1) = sgn n"
proof -
  define m where "m = \<bar>n\<bar>"
  define e where "e = bitLength m - 53"
  define q where "q = m div 2 ^ e"
  define q' where "q' = (if m mod 2 ^ e > 2 ^ (e - 1) \<or> (m mod 2 ^ e = 2 ^ (e - 1) \<and> odd q)
                         then q + 1 else q)"
  define big :: int where "big = 2 ^ 53"
  have big: "0 < big"
    by (simp add: big_def)
  have td: "toDouble n =
     (if m < big then Num n
      else if 1024 < bitLength (q' * 2 ^ e) then (if n < 0 then NegInf else PosInf)
      else Num ((if n < 0 then - 1 else 1) * (q' * 2 ^ e)))"
    unfolding toDouble_def Let_def m_def e_def q_def q'_def big_def ..
  have v: "0 < q' \<and> 0 < q' * 2 ^ e" if "\<not> m < big"
  proof -
    from that big have m: "0 < m"
      by linarith
    have "(2::int) ^ e \<le> 2 ^ (bitLength m - 1)"
      unfolding e_def by (rule power_increasing) simp_all
    also from m have "\<dots> \<le> m"
      by (rule bitLength_lower)
    finally have "(2::int) ^ e \<le> m" .
    then have "0 < q"
      unfolding q_def by (simp add: pos_imp_zdiv_pos_iff)
    then have "0 < q'"
      unfolding q'_def by simp
    then show ?thesis
      by simp
  qed
  show "toDouble n \<noteq> NaN"
    unfolding td by simp
  show "sgn (case toDouble n of NaN \<Rightarrow> 0 | NegInf \<Rightarrow> - 1 | Num v \<Rightarrow> v | PosInf \<Rightarrow> 1) = sgn n"
  proof (cases "m < big")
    case True
    then show ?thesis
      unfolding td by simp
  next
    case False
    with big have "n \<noteq> 0"
      unfolding m_def by auto
    with v [OF False] False show ?thesis
      unfolding td by (auto simp add: sgn_if)
  qed
qed

text \<open>
  The date order is consistent when every date is valid, the reading-time order when
  every reading time parses to a finite number, and the order of a key that the handler
  does not know always (its comparator is constantly 0).
\<close>

lemma consistent_date:
  assumes "\<forall>e \<in> set xs. \<exists>n. dateValue h (published_date e) = Num n"
  shows "consistent (comparator h ''date'') xs"
proof (rule consistent_by_key
    [where key = "\<lambda>e. case dateValue h (published_date e) of Num n \<Rightarrow> - n | _ \<Rightarrow> 0"])
  show "list_all (\<lambda>a. list_all (\<lambda>b. comparator h ''date'' a b \<noteq> NaN
          \<and> sgn (sortCompare (comparator h ''date'') a b)
              = sgn ((case dateValue h (published_date a) of Num n \<Rightarrow> - n | _ \<Rightarrow> 0)
                     - (case dateValue h (published_date b) of Num n \<Rightarrow> - n | _ \<Rightarrow> 0))) xs) xs"
    unfolding list_all_iff
  proof (intro ballI)
    fix a b
    assume "a \<in> set xs" and "b \<in> set xs"
    with assms obtain x y where "dateValue h (published_date a) = Num x"
      and "dateValue h (published_date b) = Num y"
      by blast
    then show "comparator h ''date'' a b \<noteq> NaN
          \<and> sgn (sortCompare (comparator h ''date'') a b)
              = sgn ((case dateValue h (published_date a) of Num n \<Rightarrow> - n | _ \<Rightarrow> 0)
                     - (case dateValue h (published_date b) of Num n \<Rightarrow> - n | _ \<Rightarrow> 0))"
      using toDouble_sign [of "y - x"] by (simp add: comparator_def sortCompare_def)
  qed
qed

lemma consistent_reading_time:
  assumes "\<forall>e \<in> set xs. \<exists>n. parseInt h (reading_time e) = Num n"
  shows "consistent (comparator h ''reading_time'') xs"
proof (rule consistent_by_key
    [where key = "\<lambda>e. case parseInt h (reading_time e) of Num n \<Rightarrow> - n | _ \<Rightarrow> 0"])
  show "list_all (\<lambda>a. list_all (\<lambda>b. comparator h ''reading_time'' a b \<noteq> NaN
          \<and> sgn (sortCompare (comparator h ''reading_time'') a b)
              = sgn ((case parseInt h (reading_time a) of Num n \<Rightarrow> - n | _ \<Rightarrow> 0)
                     - (case parseInt h (reading_time b) of Num n \<Rightarrow> - n | _ \<Rightarrow> 0))) xs) xs"
    unfolding list_all_iff
  proof (intro ballI)
    fix a b
    assume "a \<in> set xs" and "b \<in> set xs"
    with assms obtain x y where "parseInt h (reading_time a) = Num x"
      and "parseInt h (reading_time b) = Num y"
      by blast
    then show "comparator h ''reading_time'' a b \<noteq> NaN
          \<and> sgn (sortCompare (comparator h ''reading_time'') a b)
              = sgn ((case parseInt h (reading_time a) of Num n \<Rightarrow> - n | _ \<Rightarrow> 0)
                     - (case parseInt h (reading_time b) of Num n \<Rightarrow> - n | _ \<Rightarrow> 0))"
      using toDouble_sign [of "y - x"] by (simp add: comparator_def sortCompare_def)
  qed
qed

lemma consistent_unknown_key:
  assumes "by \<noteq> ''date''" and "by \<noteq> ''reading_time''" and "by \<noteq> ''category''"
  shows "consistent (comparator h by) xs"
  using assms
  by (intro consistent_by_key [where key = "\<lambda>e. 0"])
     (simp add: comparator_def sortCompare_def list_all_iff)

subsection \<open>Sorting the example entries\<close>

lemma sort_date_AB:
  "arraySort exampleHost (comparator exampleHost ''date'') [entryA, entryB] = [entryB, entryA]"
proof -
  have "arraySort exampleHost (comparator exampleHost ''date'') [entryA, entryB]
          = stableSort (comparator exampleHost ''date'') [entryA, entryB]"
    by (rule arraySort_by_key [where key = dateKey]) code_simp
  also have "\<dots> = [entryB, entryA]"
    by code_simp
  finally show ?thesis .
qed







lemma loaded_fields:
  "items (loaded d) = d"
  "filteredItems (loaded d) = d"
  "currentSort (loaded d) = []"
  "currentFilter (loaded d) = []"
  "currentSearch (loaded d) = []"
  by (simp_all add: loaded_def constructor_def)

lemma run_Cons: "run h (ev # evs) st = run h evs (handle h ev st)"
  by (simp add: run_def)

lemma toLowerCase_Nil: "toLowerCase [] = []"
  by (simp add: toLowerCase_def)

subsection \<open>Recomputation by the handlers\<close>




subsection \<open>Sequences of criterion changes\<close>





text \<open>
  The branch of \<open>onSearchInput\<close> for an empty query with no filter active resets
  \<open>filteredItems\<close> to \<open>items\<close> and, unlike its sibling branches, does not reapply the
  stored sort: clearing the search box after sorting by date shows \<open>[A, B]\<close> in the
  order of \<open>items\<close>, not newest first.
\<close>

lemma cleared_search_drops_sort:
  "filteredItems (run exampleHost [SortChange ''date'', SearchInput []] (loaded [entryA, entryB]))
     = [entryA, entryB]
   \<and> currentSort (run exampleHost [SortChange ''date'', SearchInput []] (loaded [entryA, entryB]))
     = ''date''
   \<and> pipeline exampleHost
       (run exampleHost [SortChange ''date'', SearchInput []] (loaded [entryA, entryB]))
     = [entryB, entryA]"
  by (simp add: run_Cons run_Nil pipeline_def onSortChange_fields onSearchInput_fields
        loaded_fields applySort_def applySearch_def applyFilter_def toLowerCase_Nil
        sort_date_AB)



subsection \<open>The retry loop\<close>

lemma retryLoop_requests_le:
  "retryLoop r e st w = (res, st', w') \<Longrightarrow> length (requests w') \<le> length (requests w) + r"
proof (induction r arbitrary: e w)
  case 0
  then show ?case by simp
next
  case (Suc r)
  show ?case
  proof (cases "attempt (network w (apiUrl st) (length (requests w)))")
    case (Inl msg)
    with Suc.prems have "retryLoop r (Error msg) st
        (if r > 0 then sleep (1000 * (3 - int r)) (w\<lparr>requests := requests w @ [apiUrl st]\<rparr>)
         else w\<lparr>requests := requests w @ [apiUrl st]\<rparr>) = (res, st', w')"
      by (simp add: Let_def)
    from Suc.IH [OF this] show ?thesis
      by (simp add: sleep_def split: if_splits)
  next
    case (Inr d)
    with Suc.prems show ?thesis
      by (auto simp add: Let_def)
  qed
qed

lemma fetchData_requests_le:
  "length (requests (snd (snd (fetchData st w)))) \<le> length (requests w) + 3"
proof (cases "freshEntry st w")
  case None
  obtain res st' w' where r: "retryLoop 3 Undefined st w = (res, st', w')"
    by (cases "retryLoop 3 Undefined st w") auto
  from retryLoop_requests_le [OF r] None r show ?thesis
    by (simp add: fetchData_def split: option.splits)
next
  case (Some c)
  then show ?thesis by (simp add: fetchData_def)
qed

lemma retryLoop_third:
  assumes "attempt (network w (apiUrl st) (length (requests w))) = Inl m1"
    and "attempt (network w (apiUrl st) (length (requests w) + 1)) = Inl m2"
    and "attempt (network w (apiUrl st) (length (requests w) + 2)) = Inr d"
  shows "retryLoop 3 e st w =
     (None,
      st\<lparr>cache := (cache st)(apiUrl st \<mapsto> \<lparr>data = d, timestamp = now w + 3000\<rparr>),
         items := d, filteredItems := d\<rparr>,
      w\<lparr>now := now w + 3000,
        requests := requests w @ [apiUrl st, apiUrl st, apiUrl st],
        delays := delays w @ [1000, 2000]\<rparr>)"
  using assms by (simp add: numeral_3_eq_3 Let_def sleep_def add.commute)

lemma retryLoop_all_fail:
  assumes "attempt (network w (apiUrl st) (length (requests w))) = Inl m1"
    and "attempt (network w (apiUrl st) (length (requests w) + 1)) = Inl m2"
    and "attempt (network w (apiUrl st) (length (requests w) + 2)) = Inl m3"
  shows "retryLoop 3 e st w =
     (Some (Error m3), st,
      w\<lparr>now := now w + 3000,
        requests := requests w @ [apiUrl st, apiUrl st, apiUrl st],
        delays := delays w @ [1000, 2000]\<rparr>)"
  using assms by (simp add: numeral_3_eq_3 Let_def sleep_def add.commute)

text \<open>
  What the loop leaves behind, for any network: it issues between one and \<open>retries\<close>
  requests, all for the URL of the controller; when it returns, the last of them gave the
  array now in \<open>items\<close>, and the cache holds that array with the time of the clock; when it
  throws, it has used all its attempts and the controller is as before.
\<close>

lemma retryLoop_outcome:
  "retryLoop r e st w = (res, st', w') \<Longrightarrow> 0 < r \<Longrightarrow>
   (\<exists>k. 1 \<le> k \<and> k \<le> r \<and> requests w' = requests w @ replicate k (apiUrl st)
      \<and> (case res of
            None \<Rightarrow>
              attempt (network w (apiUrl st) (length (requests w) + k - 1)) = Inr (items st')
              \<and> cache st' = (cache st)(apiUrl st \<mapsto> \<lparr>data = items st', timestamp = now w'\<rparr>)
              \<and> filteredItems st' = items st'
          | Some e' \<Rightarrow> k = r \<and> st' = st))"
proof (induction r arbitrary: e w)
  case 0
  then show ?case by simp
next
  case (Suc r)
  let ?w1 = "w\<lparr>requests := requests w @ [apiUrl st]\<rparr>"
  let ?w2 = "if r > 0 then sleep (1000 * (3 - int r)) ?w1 else ?w1"
  show ?case
  proof (cases "attempt (network w (apiUrl st) (length (requests w)))")
    case (Inr d)
    with Suc.prems have "res = None" "w' = ?w1"
      "st' = st\<lparr>cache := (cache st)(apiUrl st \<mapsto> \<lparr>data = d, timestamp = now w\<rparr>),
                 items := d, filteredItems := d\<rparr>"
      by (auto simp add: Let_def)
    with Inr show ?thesis
      by (intro exI [of _ 1]) simp
  next
    case (Inl msg)
    with Suc.prems have loop: "retryLoop r (Error msg) st ?w2 = (res, st', w')"
      by (simp add: Let_def)
    have w2: "network ?w2 = network w" "requests ?w2 = requests w @ [apiUrl st]"
      by (simp_all add: sleep_def)
    show ?thesis
    proof (cases r)
      case 0
      with loop have "res = Some (Error msg)" "st' = st" "w' = ?w1"
        by auto
      with 0 show ?thesis
        by (intro exI [of _ 1]) simp
    next
      case (Suc r')
      then have "0 < r" by simp
      from Suc.IH [OF loop this] obtain k where k: "1 \<le> k" "k \<le> r"
        "requests w' = requests ?w2 @ replicate k (apiUrl st)"
        "(case res of
            None \<Rightarrow>
              attempt (network ?w2 (apiUrl st) (length (requests ?w2) + k - 1)) = Inr (items st')
              \<and> cache st' = (cache st)(apiUrl st \<mapsto> \<lparr>data = items st', timestamp = now w'\<rparr>)
              \<and> filteredItems st' = items st'
          | Some e' \<Rightarrow> k = r \<and> st' = st)"
        by blast
      from k(1) have idx: "length (requests w) + 1 + k - 1 = length (requests w) + Suc k - 1"
        by simp
      from k show ?thesis
        unfolding w2
        by (intro exI [of _ "Suc k"]) (auto simp add: replicate_append_same idx split: option.splits)
    qed
  qed
qed

lemma retryLoop_containers:
  "retryLoop r e st w = (res, st', w') \<Longrightarrow>
   loadingIndicator st' = loadingIndicator st \<and> errorContainer st' = errorContainer st
   \<and> listContainer st' = listContainer st"
proof (induction r arbitrary: e w)
  case 0
  then show ?case by simp
next
  case (Suc r)
  show ?case
  proof (cases "attempt (network w (apiUrl st) (length (requests w)))")
    case (Inl msg)
    with Suc.prems have "retryLoop r (Error msg) st
        (if r > 0 then sleep (1000 * (3 - int r)) (w\<lparr>requests := requests w @ [apiUrl st]\<rparr>)
         else w\<lparr>requests := requests w @ [apiUrl st]\<rparr>) = (res, st', w')"
      by (simp add: Let_def)
    from Suc.IH [OF this] show ?thesis .
  next
    case (Inr d)
    with Suc.prems show ?thesis
      by (auto simp add: Let_def)
  qed
qed

lemma fetchData_containers:
  "loadingIndicator (fst (snd (fetchData st w))) = loadingIndicator st
   \<and> errorContainer (fst (snd (fetchData st w))) = errorContainer st"
proof (cases "freshEntry st w")
  case None
  obtain res st' w' where r: "retryLoop 3 Undefined st w = (res, st', w')"
    by (cases "retryLoop 3 Undefined st w") auto
  from retryLoop_containers [OF r] None r show ?thesis
    by (simp add: fetchData_def split: option.splits)
next
  case (Some c)
  then show ?thesis by (simp add: fetchData_def)
qed

text \<open>
  Claim C5. With no cache entry for the URL, \<open>fetchData\<close> issues at most three requests.
  When the first two attempts fail (whatever the failure: a rejected request, a status
  that is not ok, a malformed body or a body that is no array) and the third gives an
  array, \<open>fetchData\<close> returns with that array in \<open>items\<close>, \<open>filteredItems\<close> and the cache,
  after three requests and exactly two waits, of 1000 ms and then 2000 ms.
\<close>

theorem fetchData_retry:
  "cache st (apiUrl st) = None \<Longrightarrow>
   length (requests (snd (snd (fetchData st w)))) \<le> length (requests w) + 3
   \<and> (attempt (network w (apiUrl st) (length (requests w))) = Inl m1
      \<and> attempt (network w (apiUrl st) (length (requests w) + 1)) = Inl m2
      \<and> attempt (network w (apiUrl st) (length (requests w) + 2)) = Inr d
      \<longrightarrow> fetchData st w =
           (None,
            st\<lparr>cache := (cache st)(apiUrl st \<mapsto> \<lparr>data = d, timestamp = now w + 3000\<rparr>),
               items := d, filteredItems := d\<rparr>,
            w\<lparr>now := now w + 3000,
              requests := requests w @ [apiUrl st, apiUrl st, apiUrl st],
              delays := delays w @ [1000, 2000]\<rparr>))"
  by (simp add: fetchData_requests_le) (simp add: fetchData_def freshEntry_def retryLoop_third)

theorem fetchData_retry_witness:
  "cache bareList (apiUrl bareList) = None
   \<and> fst (fetchData bareList (worldAt 0 flakyNetwork)) = None
   \<and> items (fst (snd (fetchData bareList (worldAt 0 flakyNetwork)))) = [entryA, entryB]
   \<and> length (requests (snd (snd (fetchData bareList (worldAt 0 flakyNetwork))))) = 3
   \<and> delays (snd (snd (fetchData bareList (worldAt 0 flakyNetwork)))) = [1000, 2000]"
proof -
  let ?st = "bareList" and ?w = "worldAt 0 flakyNetwork"
  have c: "cache ?st (apiUrl ?st) = None"
    by (simp add: bareList_def constructor_def)
  have a: "attempt (network ?w (apiUrl ?st) (length (requests ?w))) = Inl ''HTTP error! status: 503''"
    by code_simp
  have b: "attempt (network ?w (apiUrl ?st) (length (requests ?w) + 1)) = Inl ''Unexpected API response''"
    by code_simp
  have d: "attempt (network ?w (apiUrl ?st) (length (requests ?w) + 2)) = Inr [entryA, entryB]"
    by code_simp
  from fetchData_retry [OF c, of ?w] a b d
  have "fetchData ?st ?w =
           (None,
            ?st\<lparr>cache := (cache ?st)(apiUrl ?st \<mapsto> \<lparr>data = [entryA, entryB], timestamp = now ?w + 3000\<rparr>),
               items := [entryA, entryB], filteredItems := [entryA, entryB]\<rparr>,
            ?w\<lparr>now := now ?w + 3000,
              requests := requests ?w @ [apiUrl ?st, apiUrl ?st, apiUrl ?st],
              delays := delays ?w @ [1000, 2000]\<rparr>)"
    by blast
  then show ?thesis
    using c by (simp add: worldAt_def)
qed

subsection \<open>The cache\<close>

lemma retryLoop_first:
  assumes "attempt (network w (apiUrl st) (length (requests w))) = Inr d"
  shows "retryLoop 3 e st w =
     (None,
      st\<lparr>cache := (cache st)(apiUrl st \<mapsto> \<lparr>data = d, timestamp = now w\<rparr>),
         items := d, filteredItems := d\<rparr>,
      w\<lparr>requests := requests w @ [apiUrl st]\<rparr>)"
  using assms by (simp add: numeral_3_eq_3 Let_def)

lemma retryLoop_second:
  assumes "attempt (network w (apiUrl st) (length (requests w))) = Inl m1"
    and "attempt (network w (apiUrl st) (length (requests w) + 1)) = Inr d"
  shows "retryLoop 3 e st w =
     (None,
      st\<lparr>cache := (cache st)(apiUrl st \<mapsto> \<lparr>data = d, timestamp = now w + 1000\<rparr>),
         items := d, filteredItems := d\<rparr>,
      w\<lparr>now := now w + 1000,
        requests := requests w @ [apiUrl st, apiUrl st],
        delays := delays w @ [1000]\<rparr>)"
  using assms by (simp add: numeral_3_eq_3 Let_def sleep_def add.commute)

lemma retryLoop_config:
  "retryLoop r e st w = (res, st', w') \<Longrightarrow>
   apiUrl st' = apiUrl st \<and> cacheExpiry st' = cacheExpiry st"
proof (induction r arbitrary: e w)
  case 0
  then show ?case by simp
next
  case (Suc r)
  show ?case
  proof (cases "attempt (network w (apiUrl st) (length (requests w)))")
    case (Inl msg)
    with Suc.prems have "retryLoop r (Error msg) st
        (if r > 0 then sleep (1000 * (3 - int r)) (w\<lparr>requests := requests w @ [apiUrl st]\<rparr>)
         else w\<lparr>requests := requests w @ [apiUrl st]\<rparr>) = (res, st', w')"
      by (simp add: Let_def)
    from Suc.IH [OF this] show ?thesis .
  next
    case (Inr d)
    with Suc.prems show ?thesis
      by (auto simp add: Let_def)
  qed
qed

text \<open>
  After a call of \<open>fetchData\<close> that went to the network and returned, a second call that
  starts less than the expiry after the end of the first changes nothing: it issues no
  request and leaves the controller as it is.
\<close>

lemma fetchData_twice:
  assumes first: "fetchData st w = (None, st1, w1)" and network: "requests w1 \<noteq> requests w"
    and soon: "now w2 - now w1 < cacheExpiry st"
  shows "fetchData st1 w2 = (None, st1, w2)"
proof -
  from first network have stale: "freshEntry st w = None"
    by (auto simp add: fetchData_def split: option.splits)
  obtain res where r: "retryLoop 3 Undefined st w = (res, st1, w1)" and "res = None"
    using first stale
    by (cases "retryLoop 3 Undefined st w") (auto simp add: fetchData_def split: option.splits)
  from retryLoop_outcome [OF r] \<open>res = None\<close>
  have c: "cache st1 = (cache st)(apiUrl st \<mapsto> \<lparr>data = items st1, timestamp = now w1\<rparr>)"
    and f: "filteredItems st1 = items st1"
    by auto
  from retryLoop_config [OF r] have u: "apiUrl st1 = apiUrl st" and e: "cacheExpiry st1 = cacheExpiry st"
    by simp_all
  from c u e soon have "freshEntry st1 w2 = Some \<lparr>data = items st1, timestamp = now w1\<rparr>"
    by (simp add: freshEntry_def)
  with f show ?thesis
    by (simp add: fetchData_def)
qed

text \<open>
  Claim C6, as the specification states it, has every call later than five minutes after
  the cached fetch repopulate the cache, and two fetches within five minutes issue at most
  one network call. With the entry \<open>[C]\<close> of time 0 and the clock at exactly five minutes,
  \<open>fetchData\<close> does go to the network (three requests), but the network fails three times:
  \<open>fetchData\<close> rejects and the cache still holds the entry of time 0. And the first fetch
  of a controller with an empty cache issues three requests by itself when its first two
  attempts fail.
\<close>

theorem fetchData_stale_not_repopulated:
  "fst (fetchData (cachedAt 0) (worldAt 300000 downNetwork))
     = Some ''Failed to fetch blogs: HTTP error! status: 500''
   \<and> cache (fst (snd (fetchData (cachedAt 0) (worldAt 300000 downNetwork)))) (apiUrl (cachedAt 0))
     = Some \<lparr>data = [entryC], timestamp = 0\<rparr>
   \<and> length (requests (snd (snd (fetchData (cachedAt 0) (worldAt 300000 downNetwork))))) = 3
   \<and> fst (fetchData bareList (worldAt 0 flakyNetwork)) = None
   \<and> length (requests (snd (snd (fetchData bareList (worldAt 0 flakyNetwork))))) = 3"
  by code_simp

text \<open>
  Claim C6, amended. Let the cache hold an entry for the URL, stored at time \<open>t\<close>, and let
  the expiry be the five minutes the constructor sets.

  A call of \<open>fetchData\<close> at a time \<open>t'\<close> with \<open>t' - t\<close> below five minutes returns the cached
  array and leaves the world as it is: no request is issued.

  A call with \<open>t' - t\<close> of five minutes or more goes to the network and retries: at the
  first attempt that succeeds, of up to three, it puts the fetched array in \<open>items\<close>,
  \<open>filteredItems\<close> and the cache, with the time of the clock, and returns; when all three
  attempts fail it rejects, and the controller, the stale entry included, is unchanged.

  Of two calls, when the first went to the network and returned and the second starts less
  than five minutes after the first ended, the second issues no request and changes
  nothing. (The first may have issued up to three requests.)
\<close>

theorem fetchData_cache:
  "(cache st (apiUrl st) = Some c \<and> cacheExpiry st = 5 * 60 * 1000 \<longrightarrow>
     (now w - timestamp c < 5 * 60 * 1000 \<longrightarrow>
        fetchData st w = (None, st\<lparr>items := data c, filteredItems := data c\<rparr>, w))
     \<and> (now w - timestamp c \<ge> 5 * 60 * 1000 \<longrightarrow>
          (attempt (network w (apiUrl st) (length (requests w))) = Inr d \<longrightarrow>
             fetchData st w =
               (None,
                st\<lparr>cache := (cache st)(apiUrl st \<mapsto> \<lparr>data = d, timestamp = now w\<rparr>),
                   items := d, filteredItems := d\<rparr>,
                w\<lparr>requests := requests w @ [apiUrl st]\<rparr>))
          \<and> (attempt (network w (apiUrl st) (length (requests w))) = Inl ma
              \<and> attempt (network w (apiUrl st) (length (requests w) + 1)) = Inr d \<longrightarrow>
             fetchData st w =
               (None,
                st\<lparr>cache := (cache st)(apiUrl st \<mapsto> \<lparr>data = d, timestamp = now w + 1000\<rparr>),
                   items := d, filteredItems := d\<rparr>,
                w\<lparr>now := now w + 1000,
                  requests := requests w @ [apiUrl st, apiUrl st],
                  delays := delays w @ [1000]\<rparr>))
          \<and> (attempt (network w (apiUrl st) (length (requests w))) = Inl ma
              \<and> attempt (network w (apiUrl st) (length (requests w) + 1)) = Inl mb
              \<and> attempt (network w (apiUrl st) (length (requests w) + 2)) = Inr d \<longrightarrow>
             fetchData st w =
               (None,
                st\<lparr>cache := (cache st)(apiUrl st \<mapsto> \<lparr>data = d, timestamp = now w + 3000\<rparr>),
                   items := d, filteredItems := d\<rparr>,
                w\<lparr>now := now w + 3000,
                  requests := requests w @ [apiUrl st, apiUrl st, apiUrl st],
                  delays := delays w @ [1000, 2000]\<rparr>))
          \<and> (attempt (network w (apiUrl st) (length (requests w))) = Inl ma
              \<and> attempt (network w (apiUrl st) (length (requests w) + 1)) = Inl mb
              \<and> attempt (network w (apiUrl st) (length (requests w) + 2)) = Inl mc \<longrightarrow>
             fetchData st w =
               (Some (''Failed to fetch blogs: '' @ mc), st,
                w\<lparr>now := now w + 3000,
                  requests := requests w @ [apiUrl st, apiUrl st, apiUrl st],
                  delays := delays w @ [1000, 2000]\<rparr>))))
   \<and> (cacheExpiry st = 5 * 60 * 1000 \<and> fetchData st w = (None, stA, wA)
        \<and> requests wA \<noteq> requests w \<and> now wB - now wA < 5 * 60 * 1000 \<longrightarrow>
        fetchData stA wB = (None, stA, wB))"
proof (intro conjI impI)
  assume "cache st (apiUrl st) = Some c \<and> cacheExpiry st = 5 * 60 * 1000"
    and "now w - timestamp c < 5 * 60 * 1000"
  then show "fetchData st w = (None, st\<lparr>items := data c, filteredItems := data c\<rparr>, w)"
    by (simp add: fetchData_def freshEntry_def)
next
  assume "cache st (apiUrl st) = Some c \<and> cacheExpiry st = 5 * 60 * 1000"
    and "5 * 60 * 1000 \<le> now w - timestamp c"
    and "attempt (network w (apiUrl st) (length (requests w))) = Inr d"
  then show "fetchData st w =
               (None,
                st\<lparr>cache := (cache st)(apiUrl st \<mapsto> \<lparr>data = d, timestamp = now w\<rparr>),
                   items := d, filteredItems := d\<rparr>,
                w\<lparr>requests := requests w @ [apiUrl st]\<rparr>)"
    by (simp add: fetchData_def freshEntry_def retryLoop_first)
next
  assume "cache st (apiUrl st) = Some c \<and> cacheExpiry st = 5 * 60 * 1000"
    and "5 * 60 * 1000 \<le> now w - timestamp c"
    and "attempt (network w (apiUrl st) (length (requests w))) = Inl ma
         \<and> attempt (network w (apiUrl st) (length (requests w) + 1)) = Inr d"
  then show "fetchData st w =
               (None,
                st\<lparr>cache := (cache st)(apiUrl st \<mapsto> \<lparr>data = d, timestamp = now w + 1000\<rparr>),
                   items := d, filteredItems := d\<rparr>,
                w\<lparr>now := now w + 1000,
                  requests := requests w @ [apiUrl st, apiUrl st],
                  delays := delays w @ [1000]\<rparr>)"
    by (simp add: fetchData_def freshEntry_def retryLoop_second)
next
  assume "cache st (apiUrl st) = Some c \<and> cacheExpiry st = 5 * 60 * 1000"
    and "5 * 60 * 1000 \<le> now w - timestamp c"
    and "attempt (network w (apiUrl st) (length (requests w))) = Inl ma
         \<and> attempt (network w (apiUrl st) (length (requests w) + 1)) = Inl mb
         \<and> attempt (network w (apiUrl st) (length (requests w) + 2)) = Inr d"
  then show "fetchData st w =
               (None,
                st\<lparr>cache := (cache st)(apiUrl st \<mapsto> \<lparr>data = d, timestamp = now w + 3000\<rparr>),
                   items := d, filteredItems := d\<rparr>,
                w\<lparr>now := now w + 3000,
                  requests := requests w @ [apiUrl st, apiUrl st, apiUrl st],
                  delays := delays w @ [1000, 2000]\<rparr>)"
    by (simp add: fetchData_def freshEntry_def retryLoop_third)
next
  assume "cache st (apiUrl st) = Some c \<and> cacheExpiry st = 5 * 60 * 1000"
    and "5 * 60 * 1000 \<le> now w - timestamp c"
    and "attempt (network w (apiUrl st) (length (requests w))) = Inl ma
         \<and> attempt (network w (apiUrl st) (length (requests w) + 1)) = Inl mb
         \<and> attempt (network w (apiUrl st) (length (requests w) + 2)) = Inl mc"
  then show "fetchData st w =
               (Some (''Failed to fetch blogs: '' @ mc), st,
                w\<lparr>now := now w + 3000,
                  requests := requests w @ [apiUrl st, apiUrl st, apiUrl st],
                  delays := delays w @ [1000, 2000]\<rparr>)"
    by (simp add: fetchData_def freshEntry_def retryLoop_all_fail)
next
  assume "cacheExpiry st = 5 * 60 * 1000 \<and> fetchData st w = (None, stA, wA)
        \<and> requests wA \<noteq> requests w \<and> now wB - now wA < 5 * 60 * 1000"
  then show "fetchData stA wB = (None, stA, wB)"
    using fetchData_twice [of st w stA wA wB] by simp
qed

theorem fetchData_cache_witness:
  "cache (cachedAt 0) (apiUrl (cachedAt 0)) = Some \<lparr>data = [entryC], timestamp = 0\<rparr>
   \<and> cacheExpiry (cachedAt 0) = 5 * 60 * 1000
   \<and> items (fst (snd (fetchData (cachedAt 0) (worldAt 299999 flakyNetwork)))) = [entryC]
   \<and> requests (snd (snd (fetchData (cachedAt 0) (worldAt 299999 flakyNetwork)))) = []
   \<and> fst (fetchData (cachedAt 0) (worldAt 300000 flakyNetwork)) = None
   \<and> items (fst (snd (fetchData (cachedAt 0) (worldAt 300000 flakyNetwork)))) = [entryA, entryB]
   \<and> length (requests (snd (snd (fetchData (cachedAt 0) (worldAt 300000 flakyNetwork))))) = 3
   \<and> fst (fetchData (cachedAt 0) (worldAt 300000 downNetwork))
       = Some ''Failed to fetch blogs: HTTP error! status: 500''
   \<and> fetchData (cachedAt 0) ((worldAt 300000 flakyNetwork)\<lparr>requests := [''a'', ''b'']\<rparr>)
       = (None,
          (cachedAt 0)\<lparr>cache := (cache (cachedAt 0))(apiUrl (cachedAt 0) \<mapsto>
               \<lparr>data = [entryA, entryB], timestamp = 300000\<rparr>),
             items := [entryA, entryB], filteredItems := [entryA, entryB]\<rparr>,
          (worldAt 300000 flakyNetwork)\<lparr>requests := [''a'', ''b'', apiUrl (cachedAt 0)]\<rparr>)
   \<and> delays (snd (snd (fetchData (cachedAt 0)
        ((worldAt 300000 flakyNetwork)\<lparr>requests := [''a'']\<rparr>)))) = [1000]
   \<and> fetchData (fst (snd (fetchData bareList (worldAt 0 flakyNetwork))))
        ((snd (snd (fetchData bareList (worldAt 0 flakyNetwork))))\<lparr>now := 200000\<rparr>)
       = (None, fst (snd (fetchData bareList (worldAt 0 flakyNetwork))),
          (snd (snd (fetchData bareList (worldAt 0 flakyNetwork))))\<lparr>now := 200000\<rparr>)"
proof -
  let ?c = "\<lparr>data = [entryC], timestamp = 0\<rparr>"
  let ?st = "cachedAt 0"
  have c: "cache ?st (apiUrl ?st) = Some ?c"
    by (simp add: cachedAt_def)
  have e: "cacheExpiry ?st = 5 * 60 * 1000"
    by (simp add: cachedAt_def bareList_def constructor_def)
  have early: "now (worldAt 299999 flakyNetwork) - timestamp ?c < 5 * 60 * 1000"
    by (simp add: worldAt_def)
  from fetchData_cache [where st = ?st and c = ?c and w = "worldAt 299999 flakyNetwork"] c e early
  have "fetchData ?st (worldAt 299999 flakyNetwork)
          = (None, ?st\<lparr>items := data ?c, filteredItems := data ?c\<rparr>,
             worldAt 299999 flakyNetwork)"
    by blast
  then have 1: "items (fst (snd (fetchData ?st (worldAt 299999 flakyNetwork)))) = [entryC]"
    and 2: "requests (snd (snd (fetchData ?st (worldAt 299999 flakyNetwork)))) = []"
    by (simp_all add: worldAt_def)
  let ?w = "worldAt 300000 flakyNetwork"
  have late: "now ?w - timestamp ?c \<ge> 5 * 60 * 1000"
    by (simp add: worldAt_def)
  have a1: "attempt (network ?w (apiUrl ?st) (length (requests ?w)))
              = Inl ''HTTP error! status: 503''"
    by code_simp
  have a2: "attempt (network ?w (apiUrl ?st) (length (requests ?w) + 1))
              = Inl ''Unexpected API response''"
    by code_simp
  have a3: "attempt (network ?w (apiUrl ?st) (length (requests ?w) + 2)) = Inr [entryA, entryB]"
    by code_simp
  from fetchData_cache [where st = ?st and c = ?c and w = ?w
      and ma = "''HTTP error! status: 503''" and mb = "''Unexpected API response''"
      and d = "[entryA, entryB]"] c e late a1 a2 a3
  have "fetchData ?st ?w =
               (None,
                ?st\<lparr>cache := (cache ?st)(apiUrl ?st \<mapsto>
                       \<lparr>data = [entryA, entryB], timestamp = now ?w + 3000\<rparr>),
                   items := [entryA, entryB], filteredItems := [entryA, entryB]\<rparr>,
                ?w\<lparr>now := now ?w + 3000,
                  requests := requests ?w @ [apiUrl ?st, apiUrl ?st, apiUrl ?st],
                  delays := delays ?w @ [1000, 2000]\<rparr>)"
    by blast
  then have 3: "fst (fetchData ?st ?w) = None"
    and 4: "items (fst (snd (fetchData ?st ?w))) = [entryA, entryB]"
    and 5: "length (requests (snd (snd (fetchData ?st ?w)))) = 3"
    by (simp_all add: worldAt_def)
  let ?d = "worldAt 300000 downNetwork"
  have lated: "now ?d - timestamp ?c \<ge> 5 * 60 * 1000"
    by (simp add: worldAt_def)
  have b1: "attempt (network ?d (apiUrl ?st) (length (requests ?d))) = Inl ''Failed to fetch''"
    by code_simp
  have b2: "attempt (network ?d (apiUrl ?st) (length (requests ?d) + 1)) = Inl ''Failed to fetch''"
    by code_simp
  have b3: "attempt (network ?d (apiUrl ?st) (length (requests ?d) + 2))
              = Inl ''HTTP error! status: 500''"
    by code_simp
  from fetchData_cache [where st = ?st and c = ?c and w = ?d
      and ma = "''Failed to fetch''" and mb = "''Failed to fetch''"
      and mc = "''HTTP error! status: 500''"] c e lated b1 b2 b3
  have "fetchData ?st ?d =
               (Some (''Failed to fetch blogs: '' @ ''HTTP error! status: 500''), ?st,
                ?d\<lparr>now := now ?d + 3000,
                  requests := requests ?d @ [apiUrl ?st, apiUrl ?st, apiUrl ?st],
                  delays := delays ?d @ [1000, 2000]\<rparr>)"
    by blast
  then have 6: "fst (fetchData ?st ?d) = Some ''Failed to fetch blogs: HTTP error! status: 500''"
    by simp
  let ?wf = "(worldAt 300000 flakyNetwork)\<lparr>requests := [''a'', ''b'']\<rparr>"
  have latef: "now ?wf - timestamp ?c \<ge> 5 * 60 * 1000"
    by (simp add: worldAt_def)
  have f1: "attempt (network ?wf (apiUrl ?st) (length (requests ?wf))) = Inr [entryA, entryB]"
    by code_simp
  from fetchData_cache [where st = ?st and c = ?c and w = ?wf and d = "[entryA, entryB]"]
    c e latef f1
  have "fetchData ?st ?wf =
               (None,
                ?st\<lparr>cache := (cache ?st)(apiUrl ?st \<mapsto>
                       \<lparr>data = [entryA, entryB], timestamp = now ?wf\<rparr>),
                   items := [entryA, entryB], filteredItems := [entryA, entryB]\<rparr>,
                ?wf\<lparr>requests := requests ?wf @ [apiUrl ?st]\<rparr>)"
    by blast
  then have 8: "fetchData ?st ?wf
       = (None,
          ?st\<lparr>cache := (cache ?st)(apiUrl ?st \<mapsto>
               \<lparr>data = [entryA, entryB], timestamp = 300000\<rparr>),
             items := [entryA, entryB], filteredItems := [entryA, entryB]\<rparr>,
          (worldAt 300000 flakyNetwork)\<lparr>requests := [''a'', ''b'', apiUrl ?st]\<rparr>)"
    by (simp add: worldAt_def)
  let ?ws = "(worldAt 300000 flakyNetwork)\<lparr>requests := [''a'']\<rparr>"
  have lates: "now ?ws - timestamp ?c \<ge> 5 * 60 * 1000"
    by (simp add: worldAt_def)
  have s1: "attempt (network ?ws (apiUrl ?st) (length (requests ?ws)))
              = Inl ''Unexpected API response''"
    by code_simp
  have s2: "attempt (network ?ws (apiUrl ?st) (length (requests ?ws) + 1))
              = Inr [entryA, entryB]"
    by code_simp
  from fetchData_cache [where st = ?st and c = ?c and w = ?ws and d = "[entryA, entryB]"
      and ma = "''Unexpected API response''"] c e lates s1 s2
  have "fetchData ?st ?ws =
               (None,
                ?st\<lparr>cache := (cache ?st)(apiUrl ?st \<mapsto>
                       \<lparr>data = [entryA, entryB], timestamp = now ?ws + 1000\<rparr>),
                   items := [entryA, entryB], filteredItems := [entryA, entryB]\<rparr>,
                ?ws\<lparr>now := now ?ws + 1000,
                  requests := requests ?ws @ [apiUrl ?st, apiUrl ?st],
                  delays := delays ?ws @ [1000]\<rparr>)"
    by blast
  then have 9: "delays (snd (snd (fetchData ?st ?ws))) = [1000]"
    by (simp add: worldAt_def)
  let ?f = "fetchData bareList (worldAt 0 flakyNetwork)"
  let ?st1 = "fst (snd ?f)" and ?w1 = "snd (snd ?f)"
  have "fst ?f = None"
    by code_simp
  then have first: "?f = (None, ?st1, ?w1)"
    by (metis prod.collapse)
  have "length (requests ?w1) = 3"
    by code_simp
  then have grown: "requests ?w1 \<noteq> requests (worldAt 0 flakyNetwork)"
    by (auto simp add: worldAt_def)
  have "now ?w1 = 3000"
    by code_simp
  then have soon: "now (?w1\<lparr>now := 200000\<rparr>) - now ?w1 < 5 * 60 * 1000"
    by simp
  have e0: "cacheExpiry bareList = 5 * 60 * 1000"
    by (simp add: bareList_def constructor_def)
  from fetchData_cache [where st = bareList and w = "worldAt 0 flakyNetwork" and stA = ?st1
      and wA = ?w1 and wB = "?w1\<lparr>now := 200000\<rparr>"] e0 first grown soon
  have 7: "fetchData ?st1 (?w1\<lparr>now := 200000\<rparr>) = (None, ?st1, ?w1\<lparr>now := 200000\<rparr>)"
    by blast
  from c e 1 2 3 4 5 6 7 8 9 show ?thesis
    by blast
qed

subsection \<open>Initialisation\<close>

lemma hidden_after_classAdd: "''hidden'' \<in> set (classList (classAdd ''hidden'' el))"
  by (simp add: classAdd_def)

lemma showLoading_fields:
  "freshEntry (showLoading st) w = freshEntry st w"
  "apiUrl (showLoading st) = apiUrl st"
  "errorContainer (showLoading st) = errorContainer st"
  "listContainer (showLoading st) = listContainer st"
  by (simp_all add: showLoading_def freshEntry_def split: option.splits)

lemma init_loadingIndicator:
  "loadingIndicator (fst (init st w))
     = map_option (\<lambda>el. classAdd ''hidden'' (classRemove ''hidden'' el)) (loadingIndicator st)"
proof -
  obtain res st' w' where f: "fetchData (showLoading st) w = (res, st', w')"
    by (cases "fetchData (showLoading st) w") auto
  with fetchData_containers [of "showLoading st" w]
  have "loadingIndicator st' = loadingIndicator (showLoading st)"
    by simp
  with f show ?thesis
    by (cases res)
       (simp_all add: init_def hideLoading_def render_def Let_def setupEventListeners_def
          showError_def showLoading_def option.map_comp comp_def split: option.splits)
qed

text \<open>
  Claim C7, as the specification states it, has \<open>init\<close> render an error message whenever
  all attempts fail. A controller built on a container with no \<open>.error-container\<close> element
  does not: \<open>fetchData\<close> rejects, \<open>showError\<close> returns at its guard, and neither the error
  container (there is none) nor the list container shows anything.
\<close>

theorem init_no_error_container:
  "fst (fetchData (showLoading bareList) (worldAt 0 downNetwork))
     = Some ''Failed to fetch blogs: HTTP error! status: 500''
   \<and> errorContainer (fst (init bareList (worldAt 0 downNetwork))) = None
   \<and> listContainer (fst (init bareList (worldAt 0 downNetwork))) = []"
  by code_simp

text \<open>
  Claim C7, amended. Whatever \<open>fetchData\<close> does, the loading indicator (when the page has
  one) carries the class \<open>hidden\<close> when \<open>init\<close> is done. When there is no fresh cache entry
  and all three attempts fail, whatever the kind of failure, and the page has an error
  container, \<open>init\<close> unhides it and sets its text to \<open>Error: Failed to fetch blogs:\<close>
  followed by the error text of the last attempt; with no error container nothing is
  shown. The list container is left as it was.
\<close>

theorem init_loading_and_error:
  "(case loadingIndicator (fst (init st w)) of
      None \<Rightarrow> loadingIndicator st = None
    | Some el \<Rightarrow> ''hidden'' \<in> set (classList el))
   \<and> (freshEntry st w = None
      \<and> attempt (network w (apiUrl st) (length (requests w))) = Inl m1
      \<and> attempt (network w (apiUrl st) (length (requests w) + 1)) = Inl m2
      \<and> attempt (network w (apiUrl st) (length (requests w) + 2)) = Inl m3
      \<longrightarrow> errorContainer (fst (init st w))
            = map_option
                (\<lambda>el. (classRemove ''hidden'' el)
                   \<lparr>textContent := ''Error: Failed to fetch blogs: '' @ m3\<rparr>)
                (errorContainer st)
          \<and> listContainer (fst (init st w)) = listContainer st)"
proof (intro conjI impI)
  show "case loadingIndicator (fst (init st w)) of
      None \<Rightarrow> loadingIndicator st = None
    | Some el \<Rightarrow> ''hidden'' \<in> set (classList el)"
    by (simp add: init_loadingIndicator hidden_after_classAdd split: option.splits)
next
  assume a: "freshEntry st w = None
      \<and> attempt (network w (apiUrl st) (length (requests w))) = Inl m1
      \<and> attempt (network w (apiUrl st) (length (requests w) + 1)) = Inl m2
      \<and> attempt (network w (apiUrl st) (length (requests w) + 2)) = Inl m3"
  then have "retryLoop 3 Undefined (showLoading st) w =
     (Some (Error m3), showLoading st,
      w\<lparr>now := now w + 3000,
        requests := requests w @ [apiUrl st, apiUrl st, apiUrl st],
        delays := delays w @ [1000, 2000]\<rparr>)"
    using retryLoop_all_fail [of w "showLoading st" m1 m2 m3 Undefined]
    by (simp add: showLoading_fields)
  with a have f: "fetchData (showLoading st) w =
     (Some (''Failed to fetch blogs: '' @ m3), showLoading st,
      w\<lparr>now := now w + 3000,
        requests := requests w @ [apiUrl st, apiUrl st, apiUrl st],
        delays := delays w @ [1000, 2000]\<rparr>)"
    by (simp add: fetchData_def showLoading_fields)
  show "errorContainer (fst (init st w))
            = map_option
                (\<lambda>el. (classRemove ''hidden'' el)
                   \<lparr>textContent := ''Error: Failed to fetch blogs: '' @ m3\<rparr>)
                (errorContainer st)"
    by (simp add: init_def f hideLoading_def showError_def showLoading_fields
          split: option.splits)
  show "listContainer (fst (init st w)) = listContainer st"
    by (simp add: init_def f hideLoading_def showError_def showLoading_fields
          split: option.splits)
qed

theorem init_loading_and_error_witness:
  "freshEntry fullList (worldAt 0 downNetwork) = None
   \<and> errorContainer (fst (init fullList (worldAt 0 downNetwork)))
       = Some \<lparr>classList = [''error-container''],
               textContent = ''Error: Failed to fetch blogs: HTTP error! status: 500''\<rparr>
   \<and> loadingIndicator (fst (init fullList (worldAt 0 downNetwork)))
       = Some \<lparr>classList = [''loading-indicator'', ''hidden''], textContent = ''Loading''\<rparr>"
proof -
  let ?st = fullList and ?w = "worldAt 0 downNetwork"
  have c: "freshEntry ?st ?w = None"
    by (simp add: freshEntry_def fullList_def constructor_def)
  have a: "attempt (network ?w (apiUrl ?st) (length (requests ?w))) = Inl ''Failed to fetch''"
    by code_simp
  have b: "attempt (network ?w (apiUrl ?st) (length (requests ?w) + 1)) = Inl ''Failed to fetch''"
    by code_simp
  have d: "attempt (network ?w (apiUrl ?st) (length (requests ?w) + 2))
             = Inl ''HTTP error! status: 500''"
    by code_simp
  from init_loading_and_error [of ?st ?w] c a b d
  have "errorContainer (fst (init ?st ?w))
            = map_option
                (\<lambda>el. (classRemove ''hidden'' el)
                   \<lparr>textContent := ''Error: Failed to fetch blogs: '' @ ''HTTP error! status: 500''\<rparr>)
                (errorContainer ?st)"
    by blast
  then have e: "errorContainer (fst (init ?st ?w))
       = Some \<lparr>classList = [''error-container''],
               textContent = ''Error: Failed to fetch blogs: HTTP error! status: 500''\<rparr>"
    by (simp add: fullList_def constructor_def classRemove_def)
  have l: "loadingIndicator (fst (init ?st ?w))
       = Some \<lparr>classList = [''loading-indicator'', ''hidden''], textContent = ''Loading''\<rparr>"
    by (simp add: init_loadingIndicator fullList_def constructor_def classRemove_def classAdd_def)
  from c e l show ?thesis
    by blast
qed

subsection \<open>The navigation bar on resize\<close>

text \<open>
  Claim C9. On a resize to a width above 768 pixels the handler removes the class
  \<open>nav-list--visible\<close> from the menu and sets \<open>aria-expanded\<close> of the toggle to
  \<open>"false"\<close>; on a resize to a width below 768 pixels it changes nothing.
\<close>

theorem handleResize_closes_menu:
  "(768 < innerWidth \<longrightarrow>
      ''nav-list--visible'' \<notin> set (classList (navList (handleResize innerWidth nav)))
      \<and> navToggle (handleResize innerWidth nav) ''aria-expanded'' = Some ''false'')
   \<and> (innerWidth < 768 \<longrightarrow> handleResize innerWidth nav = nav)"
  by (simp add: handleResize_def classRemove_def)

theorem handleResize_closes_menu_witness:
  "(768 :: int) < 800 \<and> (700 :: int) < 768
   \<and> handleResize 700 openNav = openNav
   \<and> ''nav-list--visible'' \<notin> set (classList (navList (handleResize 800 (handleResize 700 openNav))))
   \<and> navToggle (handleResize 800 (handleResize 700 openNav)) ''aria-expanded'' = Some ''false''"
proof -
  have small: "handleResize 700 openNav = openNav"
    using handleResize_closes_menu [of 700 openNav] by simp
  have "''nav-list--visible'' \<notin> set (classList (navList (handleResize 800 openNav)))
      \<and> navToggle (handleResize 800 openNav) ''aria-expanded'' = Some ''false''"
    using handleResize_closes_menu [of 800 openNav] by simp
  with small show ?thesis
    by simp
qed

subsection \<open>Dropping an item on a zone\<close>

lemma removeNode_fields:
  "children (containers (removeNode x st) z) = removeAll x (children (containers st z))"
  "classList (containers (removeNode x st) z) = classList (containers st z)"
  "nodes (removeNode x st) = nodes st"
  "fresh (removeNode x st) = fresh st"
  "draggedItem (removeNode x st) = draggedItem st"
  by (simp_all add: removeNode_def)

lemma fold_removeNode_fields:
  "children (containers (fold removeNode xs st) z)
     = filter (\<lambda>i. i \<notin> set xs) (children (containers st z))"
  "classList (containers (fold removeNode xs st) z) = classList (containers st z)"
  "nodes (fold removeNode xs st) = nodes st"
  "fresh (fold removeNode xs st) = fresh st"
  "draggedItem (fold removeNode xs st) = draggedItem st"
  by (induction xs arbitrary: st)
     (simp_all add: removeNode_fields removeAll_filter_not_eq conj_commute eq_commute)

lemma appendChild_fields:
  "children (containers (appendChild z x st) z')
     = (if z' = z then removeAll x (children (containers st z)) @ [x]
        else removeAll x (children (containers st z')))"
  "classList (containers (appendChild z x st) z') = classList (containers st z')"
  "nodes (appendChild z x st) = nodes st"
  "fresh (appendChild z x st) = fresh st"
  "draggedItem (appendChild z x st) = draggedItem st"
  by (simp_all add: appendChild_def Let_def removeNode_fields)

lemma clearDragOver_fields:
  "children (containers (clearDragOver st) z) = children (containers st z)"
  "nodes (clearDragOver st) = nodes st"
  by (simp_all add: clearDragOver_def classRemove_def)

text \<open>
  The mouse path, in general: the clone becomes the last child of the zone and the
  dragged item leaves every container, but the children the zone had stay.
\<close>

lemma handleDrop_children:
  assumes "draggedItem st = Some x" and "isDropZone st z"
    and "x \<noteq> fresh st" and "fresh st \<notin> set (children (containers st z))"
  shows "children (containers (handleDrop (Some z) st) z)
           = removeAll x (children (containers st z)) @ [fresh st]"
    and "x \<notin> set (children (containers (handleDrop (Some z) st) z'))"
    and "nodes (handleDrop (Some z) st) (fresh st) = nodes st x"
  using assms
  by (simp_all add: handleDrop_def cloneNode_def Let_def isDropZone_def appendChild_fields
        removeNode_fields classRemove_def)

text \<open>
  The touch path, in general: the draggable children the zone had are removed, the clone
  (with its inline position cleared) becomes the last child and the only draggable one,
  and the dragged item leaves every container.
\<close>

lemma isDraggable_nodes_upd:
  "isDraggable (st\<lparr>touchTimeout := b, fresh := n, nodes := (nodes st)(c := v)\<rparr>) i
     = (if i = c then ''draggable-item'' \<in> set (classList v) else isDraggable st i)"
  by (simp add: isDraggable_def)

lemma handleTouchEnd_children:
  assumes "draggedItem st = Some x" and "isDropZone st z"
    and "x \<noteq> fresh st" and "fresh st \<notin> set (children (containers st z))"
  shows "children (containers (handleTouchEnd (Some z) st) z)
           = filter (\<lambda>i. \<not> isDraggable st i \<and> i \<noteq> x) (children (containers st z)) @ [fresh st]"
  using assms
  by (simp add: handleTouchEnd_def cloneNode_def Let_def isDropZone_def clearDragOver_fields
        removeNode_fields appendChild_fields fold_removeNode_fields isDraggable_nodes_upd
        removeAll_filter_not_eq)
     (rule filter_cong, auto)

lemma handleTouchEnd_removes:
  assumes "draggedItem st = Some x" and "isDropZone st z"
  shows "x \<notin> set (children (containers (handleTouchEnd (Some z) st) z'))"
  using assms
  by (simp add: handleTouchEnd_def cloneNode_def Let_def isDropZone_def clearDragOver_fields
        removeNode_fields)

lemma handleTouchEnd_nodes:
  assumes "draggedItem st = Some x" and "isDropZone st z" and "x \<noteq> fresh st"
  shows "nodes (handleTouchEnd (Some z) st) (fresh st) = clearStyle (nodes st x)"
    and "i \<noteq> x \<Longrightarrow> i \<noteq> fresh st \<Longrightarrow> nodes (handleTouchEnd (Some z) st) i = nodes st i"
  using assms
  by (simp_all add: handleTouchEnd_def cloneNode_def Let_def isDropZone_def clearDragOver_fields
        removeNode_fields appendChild_fields fold_removeNode_fields)

lemma handleTouchEnd_sole_item:
  assumes "draggedItem st = Some x" and "isDropZone st z" and "isDraggable st x"
    and "x \<noteq> fresh st" and "fresh st \<notin> set (children (containers st z))"
  shows "filter (isDraggable (handleTouchEnd (Some z) st))
           (children (containers (handleTouchEnd (Some z) st) z)) = [fresh st]"
proof -
  let ?st' = "handleTouchEnd (Some z) st"
  have clone: "isDraggable ?st' (fresh st)"
    using assms(3) handleTouchEnd_nodes(1) [OF assms(1,2,4)]
    by (simp add: isDraggable_def clearStyle_def)
  have others: "\<not> isDraggable ?st' i"
    if "i \<in> set (children (containers st z))" and "\<not> isDraggable st i" and "i \<noteq> x" for i
  proof -
    from that(1) assms(5) have "i \<noteq> fresh st"
      by auto
    with that(3) have "nodes ?st' i = nodes st i"
      by (rule handleTouchEnd_nodes(2) [OF assms(1,2,4)])
    with that(2) show ?thesis
      by (simp add: isDraggable_def)
  qed
  have "filter (isDraggable ?st')
          (filter (\<lambda>i. \<not> isDraggable st i \<and> i \<noteq> x) (children (containers st z))) = []"
    using others by (auto simp add: filter_empty_conv)
  with clone show ?thesis
    by (simp add: handleTouchEnd_children [OF assms(1,2,4,5)])
qed

text \<open>
  Claim C8 asks that a drop leave the clone as the only item of the zone, through the mouse
  handler as through the touch handler. On the example page the zone (container 1) holds
  item 0 already. Dragging item 1 there with the mouse leaves the zone with two draggable
  items, the old one and the clone at address 2; the same drop by touch leaves the clone
  alone. In both, item 1 has left the container it started in.
\<close>

theorem handleDrop_keeps_prior_item:
  "children (containers (handleDrop (Some 1) (handleDragStart 1 examplePage)) 1) = [0, 2]
   \<and> filter (isDraggable (handleDrop (Some 1) (handleDragStart 1 examplePage))) [0, 2] = [0, 2]
   \<and> children (containers (handleDrop (Some 1) (handleDragStart 1 examplePage)) 0) = []
   \<and> children (containers
        (handleTouchEnd (Some 1) (handleTouchStart (Some 1) 5 5 examplePage)) 1) = [2]
   \<and> children (containers
        (handleTouchEnd (Some 1) (handleTouchStart (Some 1) 5 5 examplePage)) 0) = []"
  by code_simp

end
